theory Spec2Isabelle
  imports Main "HOL-Library.AList" "HOL-Library.Char_ord" "HOL-Library.List_Lexorder"
begin

section \<open>Python values, exceptions and strings\<close>

text \<open>
  The builder of \<^verbatim>\<open>kmscsrbuilder/__init__.py\<close> is a Python object whose methods mutate it
  and may raise. A method is modelled as a function from the object's state to a pair: what
  the call did (\<open>Inl\<close> the exception raised, \<open>Inr\<close> the value returned) and the state the
  object is left in, also when the call raised.
\<close>

datatype error =
    TypeError
  | ValueError
  | KeyError
  | UnboundLocalError
  | ClientError

type_synonym bytes = string

text \<open>\<^verbatim>\<open>s[-3:]\<close>: the last three characters, the whole string when it is shorter.\<close>

definition last3 :: "string \<Rightarrow> string" where
  "last3 s = drop (length s - 3) s"

text \<open>\<^verbatim>\<open>p in s\<close> on two strings: \<open>p\<close> occurs in \<open>s\<close> as a contiguous substring.\<close>

fun is_prefix :: "string \<Rightarrow> string \<Rightarrow> bool" where
  "is_prefix [] s = True"
| "is_prefix (c # p) [] = False"
| "is_prefix (c # p) (d # s) = (c = d \<and> is_prefix p s)"

fun py_in_str :: "string \<Rightarrow> string \<Rightarrow> bool" where
  "py_in_str p [] = (p = [])"
| "py_in_str p (c # s) = (is_prefix p (c # s) \<or> py_in_str p s)"

text \<open>
  \<^verbatim>\<open>int(s)\<close> on a string of ASCII decimal digits; any other string here raises ValueError.
  (Python also accepts a sign, surrounding blanks and underscores between digits; the only
  strings the builder passes are the last three characters of a hash name, see
  \<open>hash_algo_setter\<close>.)
\<close>

definition is_digit :: "char \<Rightarrow> bool" where
  "is_digit c = (c \<in> set ''0123456789'')"

definition digit_value :: "char \<Rightarrow> nat" where
  "digit_value c = of_char c - 48"

definition py_int :: "string \<Rightarrow> error + int" where
  "py_int s =
     (if s \<noteq> [] \<and> list_all is_digit s
      then Inr (int (foldl (\<lambda>a c. 10 * a + digit_value c) 0 s))
      else Inl ValueError)"

section \<open>The ASN.1 values the builder handles\<close>

text \<open>
  \<^verbatim>\<open>x509.GeneralName\<close> is a choice: \<open>gn_name\<close> is the name of the chosen alternative
  (\<^verbatim>\<open>.name\<close>, such as \<^verbatim>\<open>dns_name\<close>), \<open>gn_native\<close> its native value (\<^verbatim>\<open>.native\<close>).
\<close>

datatype general_name = GeneralName (gn_name: string) (gn_native: string)

text \<open>
  The values of the four special extensions, by their asn1crypto class, and any other
  asn1crypto value (class name and contents).
\<close>

datatype asn1_value =
    BasicConstraints (bc_ca: bool) (bc_path_len_constraint: "int option")
  | GeneralNames "general_name list"
  | KeyUsage "string set"
  | ExtKeyUsageSyntax "string list"
  | Asn1Value string bytes

datatype public_key_info = PublicKeyInfo bytes

type_synonym x509_name = "(string \<times> string) list"

record extension =
  extn_id :: string
  critical :: bool
  extn_value :: asn1_value

datatype attribute = Attribute (attr_type: string) (attr_values: "extension list list")

record certification_request_info =
  version :: string
  subject :: x509_name
  subject_pk_info :: public_key_info
  attributes :: "attribute list"

record rsassa_pss_params =
  hash_algorithm :: string
  mask_gen_algorithm :: "string \<times> string"
  salt_length :: int

text \<open>
  The \<^verbatim>\<open>signature_algorithm_id\<close> of \<^verbatim>\<open>build_with_kms\<close>: the plain dict
  \<^verbatim>\<open>{'algorithm': name}\<close>, or \<^verbatim>\<open>algos.SignedDigestAlgorithm\<close> with its parameters.
\<close>

datatype signature_algorithm_id =
    AlgorithmDict string
  | SignedDigestAlgorithm string rsassa_pss_params

record certification_request =
  request_info :: certification_request_info
  signature_algorithm :: signature_algorithm_id
  signature :: bytes

section \<open>The external collaborators\<close>

text \<open>
  The calls into asn1crypto and oscrypto the builder makes, as parameters:
  \<^item> \<open>extn_id_native\<close>: \<^verbatim>\<open>x509.Extension({'extn_id': name})['extn_id'].native\<close>, the
    canonical name of an extension identity; it raises on an identity it cannot encode;
  \<^item> \<open>isinstance_spec n v\<close>: \<^verbatim>\<open>isinstance(v, extension.spec('extn_value'))\<close> for the
    extension of canonical name \<open>n\<close>;
  \<^item> \<open>general_name_native n v\<close>: the native value of \<^verbatim>\<open>x509.GeneralName(name=n, value=v)\<close>,
    which raises on a value the alternative \<open>n\<close> does not accept;
  \<^item> \<open>load_public_key\<close>: \<^verbatim>\<open>asymmetric.load_public_key(raw).asn1\<close>;
  \<^item> \<open>dump\<close>: \<^verbatim>\<open>certification_request_info.dump()\<close>, the DER serialisation.
\<close>

record asn1lib =
  extn_id_native :: "string \<Rightarrow> error + string"
  isinstance_spec :: "string \<Rightarrow> asn1_value \<Rightarrow> bool"
  general_name_native :: "string \<Rightarrow> string \<Rightarrow> error + string"
  load_public_key :: "bytes \<Rightarrow> error + public_key_info"
  dump :: "certification_request_info \<Rightarrow> bytes"

text \<open>The three calls of the KMS client, with the parts of their responses the builder reads.\<close>

record get_public_key_response =
  KeyUsage_of :: string
  PublicKey_of :: bytes

record key_metadata =
  SigningAlgorithms :: "string list option"

record kms_client =
  get_public_key :: "string \<Rightarrow> error + get_public_key_response"
  describe_key :: "string \<Rightarrow> error + key_metadata"
  sign :: "string \<Rightarrow> string \<Rightarrow> bytes \<Rightarrow> error + bytes"

section \<open>The builder\<close>

text \<open>
  The state of a \<^verbatim>\<open>KMSCSRBuilder\<close> after \<^verbatim>\<open>__init__\<close>; the field \<open>u_x\<close> is the attribute
  \<^verbatim>\<open>_x\<close>. \<^verbatim>\<open>_other_extensions\<close> is a dict: an association list in insertion order.
\<close>

record builder =
  u_subject :: x509_name
  u_kms_arn :: string
  u_subject_public_key :: public_key_info
  u_hash_algo :: string
  u_basic_constraints :: "asn1_value option"
  u_subject_alt_name :: "asn1_value option"
  u_key_usage :: "asn1_value option"
  u_extended_key_usage :: "asn1_value option"
  u_other_extensions :: "(string \<times> asn1_value) list"
  u_kms_signature_algo :: string

definition special_extensions :: "string list" where
  "special_extensions =
     [''basic_constraints'', ''subject_alt_name'', ''key_usage'', ''extended_key_usage'']"

subsection \<open>\<^verbatim>\<open>kms_arn\<close>, \<^verbatim>\<open>hash_algo\<close>, \<^verbatim>\<open>kms_signature_algo\<close>\<close>

text \<open>
  The setter of \<^verbatim>\<open>kms_arn\<close>. When \<^verbatim>\<open>kms.get_public_key\<close> raises, the bare \<^verbatim>\<open>except\<close>
  prints a line and goes on; \<^verbatim>\<open>PKresponse\<close> was never assigned, so reading it in the next
  statement raises UnboundLocalError.
\<close>

definition kms_arn_setter ::
  "asn1lib \<Rightarrow> kms_client \<Rightarrow> builder \<Rightarrow> string \<Rightarrow> (error + unit) \<times> builder" where
  "kms_arn_setter lib kms b v =
     (case get_public_key kms v of
        Inl e \<Rightarrow> (Inl UnboundLocalError, b)
      | Inr PKresponse \<Rightarrow>
          if KeyUsage_of PKresponse \<noteq> ''SIGN_VERIFY'' then (Inl ValueError, b)
          else (case load_public_key lib (PublicKey_of PKresponse) of
                  Inl e \<Rightarrow> (Inl e, b)
                | Inr pk \<Rightarrow> (Inr (), b\<lparr>u_subject_public_key := pk, u_kms_arn := v\<rparr>)))"

definition hash_algo_setter :: "builder \<Rightarrow> string \<Rightarrow> (error + unit) \<times> builder" where
  "hash_algo_setter b v =
     (if v \<notin> {''sha1'', ''sha256'', ''sha512''} then (Inl ValueError, b)
      else (Inr (), b\<lparr>u_hash_algo := v\<rparr>))"

definition valid_algos :: "string list" where
  "valid_algos =
     [''RSASSA_PSS_SHA_256'', ''RSASSA_PSS_SHA_384'', ''RSASSA_PSS_SHA_512'',
      ''RSASSA_PKCS1_V1_5_SHA_256'', ''RSASSA_PKCS1_V1_5_SHA_384'',
      ''RSASSA_PKCS1_V1_5_SHA_512'',
      ''ECDSA_SHA_256'', ''ECDSA_SHA_384'', ''ECDSA_SHA_512'']"

definition kms_signature_algo_setter :: "builder \<Rightarrow> string \<Rightarrow> (error + unit) \<times> builder" where
  "kms_signature_algo_setter b v =
     (if v \<notin> set valid_algos then (Inl ValueError, b)
      else (Inr (), b\<lparr>u_kms_signature_algo := v\<rparr>))"

subsection \<open>\<^verbatim>\<open>ca\<close>\<close>

text \<open>
  The getter of \<^verbatim>\<open>ca\<close> reads \<^verbatim>\<open>self._basic_constraints['ca'].native\<close>. A value of
  another class has no field \<^verbatim>\<open>ca\<close>, and the subscript raises.
\<close>

definition ca :: "builder \<Rightarrow> error + bool option" where
  "ca b =
     (case u_basic_constraints b of
        None \<Rightarrow> Inr None
      | Some (BasicConstraints c p) \<Rightarrow> Inr (Some c)
      | Some _ \<Rightarrow> Inl KeyError)"

text \<open>
  The setter of \<^verbatim>\<open>ca\<close>. Its argument is \<^verbatim>\<open>None\<close>, or any other value, of which the
  setter uses the truth value \<^verbatim>\<open>bool(value)\<close> only.
\<close>

definition ca_setter :: "builder \<Rightarrow> bool option \<Rightarrow> builder" where
  "ca_setter b v =
     (case v of
        None \<Rightarrow> b\<lparr>u_basic_constraints := None\<rparr>
      | Some t \<Rightarrow>
          if t
          then b\<lparr>u_basic_constraints := Some (BasicConstraints t None),
                 u_key_usage := Some (KeyUsage {''key_cert_sign'', ''crl_sign''}),
                 u_extended_key_usage := Some (ExtKeyUsageSyntax [''ocsp_signing''])\<rparr>
          else b\<lparr>u_basic_constraints := Some (BasicConstraints t None),
                 u_key_usage := Some (KeyUsage {''digital_signature'', ''key_encipherment''}),
                 u_extended_key_usage :=
                   Some (ExtKeyUsageSyntax [''server_auth'', ''client_auth''])\<rparr>)"

subsection \<open>Subject alternative names\<close>

text \<open>
  Both \<^verbatim>\<open>_get_subject_alt\<close> and \<^verbatim>\<open>_set_subject_alt\<close> iterate over
  \<^verbatim>\<open>self._subject_alt_name\<close> and read \<^verbatim>\<open>.name\<close> of each element: a value that is not a
  \<^verbatim>\<open>GeneralNames\<close> makes the loop raise.
\<close>

definition general_names_of :: "asn1_value \<Rightarrow> error + general_name list" where
  "general_names_of v = (case v of GeneralNames gs \<Rightarrow> Inr gs | _ \<Rightarrow> Inl TypeError)"

definition get_subject_alt :: "builder \<Rightarrow> string \<Rightarrow> error + string list" where
  "get_subject_alt b n =
     (case u_subject_alt_name b of
        None \<Rightarrow> Inr []
      | Some v \<Rightarrow>
          (case general_names_of v of
             Inl e \<Rightarrow> Inl e
           | Inr gs \<Rightarrow> Inr (map gn_native (filter (\<lambda>g. gn_name g = n) gs))))"

text \<open>
  The loop of \<^verbatim>\<open>_set_subject_alt\<close> that appends one \<^verbatim>\<open>x509.GeneralName\<close> for each value:
  it returns the list reached, and the exception if building a name raised.
\<close>

fun append_general_names ::
  "asn1lib \<Rightarrow> string \<Rightarrow> string list \<Rightarrow> general_name list \<Rightarrow> error option \<times> general_name list"
where
  "append_general_names lib n [] gs = (None, gs)"
| "append_general_names lib n (v # vs) gs =
     (case general_name_native lib n v of
        Inl e \<Rightarrow> (Some e, gs)
      | Inr w \<Rightarrow> append_general_names lib n vs (gs @ [GeneralName n w]))"

definition set_subject_alt ::
  "asn1lib \<Rightarrow> builder \<Rightarrow> string \<Rightarrow> string list option \<Rightarrow> (error + unit) \<times> builder" where
  "set_subject_alt lib b n vals =
     (case (case u_subject_alt_name b of
              None \<Rightarrow> Inr []
            | Some v \<Rightarrow> map_sum id (filter (\<lambda>g. gn_name g \<noteq> n)) (general_names_of v)) of
        Inl e \<Rightarrow> (Inl e, b)
      | Inr filtered_general_names \<Rightarrow>
          (case append_general_names lib n (case vals of None \<Rightarrow> [] | Some vs \<Rightarrow> vs)
                  filtered_general_names of
             (Some e, gs) \<Rightarrow> (Inl e, b\<lparr>u_subject_alt_name := Some (GeneralNames gs)\<rparr>)
           | (None, gs) \<Rightarrow>
               if length gs = 0 then (Inr (), b\<lparr>u_subject_alt_name := None\<rparr>)
               else (Inr (), b\<lparr>u_subject_alt_name := Some (GeneralNames gs)\<rparr>)))"

definition subject_alt_domains :: "builder \<Rightarrow> error + string list" where
  "subject_alt_domains b = get_subject_alt b ''dns_name''"

definition subject_alt_domains_setter ::
  "asn1lib \<Rightarrow> builder \<Rightarrow> string list option \<Rightarrow> (error + unit) \<times> builder" where
  "subject_alt_domains_setter lib b vals = set_subject_alt lib b ''dns_name'' vals"

definition subject_alt_ips :: "builder \<Rightarrow> error + string list" where
  "subject_alt_ips b = get_subject_alt b ''ip_address''"

definition subject_alt_ips_setter ::
  "asn1lib \<Rightarrow> builder \<Rightarrow> string list option \<Rightarrow> (error + unit) \<times> builder" where
  "subject_alt_ips_setter lib b vals = set_subject_alt lib b ''ip_address'' vals"

subsection \<open>\<^verbatim>\<open>set_extension\<close>\<close>

text \<open>
  \<^verbatim>\<open>getattr(self, '_%s' % name)\<close> and \<^verbatim>\<open>setattr(self, '_%s' % name, value)\<close>; the builder
  calls them with the four names of \<open>special_extensions\<close> only.
\<close>

definition getattr_special :: "builder \<Rightarrow> string \<Rightarrow> asn1_value option" where
  "getattr_special b n =
     (if n = ''basic_constraints'' then u_basic_constraints b
      else if n = ''subject_alt_name'' then u_subject_alt_name b
      else if n = ''key_usage'' then u_key_usage b
      else if n = ''extended_key_usage'' then u_extended_key_usage b
      else None)"

definition setattr_special :: "builder \<Rightarrow> string \<Rightarrow> asn1_value option \<Rightarrow> builder" where
  "setattr_special b n v =
     (if n = ''basic_constraints'' then b\<lparr>u_basic_constraints := v\<rparr>
      else if n = ''subject_alt_name'' then b\<lparr>u_subject_alt_name := v\<rparr>
      else if n = ''key_usage'' then b\<lparr>u_key_usage := v\<rparr>
      else if n = ''extended_key_usage'' then b\<lparr>u_extended_key_usage := v\<rparr>
      else b)"

definition set_extension ::
  "asn1lib \<Rightarrow> builder \<Rightarrow> string \<Rightarrow> asn1_value option \<Rightarrow> (error + unit) \<times> builder" where
  "set_extension lib b name0 v =
     (case extn_id_native lib name0 of
        Inl e \<Rightarrow> (Inl e, b)
      | Inr n \<Rightarrow>
          if (case v of None \<Rightarrow> False | Some x \<Rightarrow> \<not> isinstance_spec lib n x)
          then (Inl TypeError, b)
          else if n \<in> set special_extensions then (Inr (), setattr_special b n v)
          else (case v of
                  None \<Rightarrow>
                    (Inr (), b\<lparr>u_other_extensions := AList.delete n (u_other_extensions b)\<rparr>)
                | Some x \<Rightarrow>
                    (Inr (), b\<lparr>u_other_extensions := AList.update n x (u_other_extensions b)\<rparr>)))"

subsection \<open>\<^verbatim>\<open>_determine_critical\<close>\<close>

definition critical_table :: "(string \<times> bool) list" where
  "critical_table =
     [(''subject_directory_attributes'', False),
      (''key_usage'', True),
      (''issuer_alt_name'', False),
      (''name_constraints'', True),
      (''certificate_policies'', False),
      (''policy_mappings'', True),
      (''policy_constraints'', True),
      (''extended_key_usage'', False),
      (''inhibit_any_policy'', True),
      (''subject_information_access'', False),
      (''tls_feature'', False),
      (''ocsp_no_check'', False)]"

definition determine_critical :: "builder \<Rightarrow> string \<Rightarrow> error + bool" where
  "determine_critical b n =
     (if n = ''subject_alt_name'' then Inr (length (u_subject b) = 0)
      else if n = ''basic_constraints''
      then (case ca b of Inl e \<Rightarrow> Inl e | Inr c \<Rightarrow> Inr (c = Some True))
      else Inr (case map_of critical_table n of None \<Rightarrow> False | Some c \<Rightarrow> c))"

subsection \<open>\<^verbatim>\<open>build_with_kms\<close>\<close>

text \<open>
  The selection of the key type from the algorithm names the key reports. The
  \<^verbatim>\<open>if\<close>/\<^verbatim>\<open>elif\<close> has no \<^verbatim>\<open>else\<close>: when neither name is reported, \<^verbatim>\<open>signature_algo\<close>
  stays unassigned (\<open>None\<close>).
\<close>

definition select_key_type :: "string list \<Rightarrow> string option" where
  "select_key_type kms_algos =
     (if ''RSASSA_PSS_SHA_256'' \<in> set kms_algos then Some ''rsa''
      else if ''ECDSA_SHA_256'' \<in> set kms_algos then Some ''ecdsa''
      else None)"

text \<open>
  The negotiation of the signature algorithm: the \<^verbatim>\<open>signature_algorithm_id\<close> (\<open>None\<close> when
  no branch assigned it) and the builder with its \<^verbatim>\<open>kms_signature_algo\<close> assigned through
  the setter, which validates the name. In the PSS branch the parameters, with
  \<^verbatim>\<open>int(self._hash_algo[-3:])//8\<close>, are evaluated before the assignment.
  \<^verbatim>\<open>_hash_algo\<close> is written by \<open>hash_algo_setter\<close> and \<^verbatim>\<open>__init__\<close> only, so it holds
  \<^verbatim>\<open>sha1\<close>, \<^verbatim>\<open>sha256\<close> or \<^verbatim>\<open>sha512\<close>, names that \<^verbatim>\<open>algos.DigestAlgorithm\<close> accepts.
\<close>

definition negotiate ::
  "builder \<Rightarrow> string \<Rightarrow> (error + signature_algorithm_id option) \<times> builder" where
  "negotiate b signature_algo =
     (if py_in_str ''ecdsa'' signature_algo then
        (case kms_signature_algo_setter b (''ECDSA_SHA'' @ ''_'' @ last3 (u_hash_algo b)) of
           (Inl e, b') \<Rightarrow> (Inl e, b')
         | (Inr _, b') \<Rightarrow>
             (Inr (Some (AlgorithmDict (u_hash_algo b @ ''_'' @ signature_algo))), b'))
      else if py_in_str ''rsa'' signature_algo then
        (if py_in_str ''PSS'' (u_kms_signature_algo b) then
           (case py_int (last3 (u_hash_algo b)) of
              Inl e \<Rightarrow> (Inl e, b)
            | Inr w \<Rightarrow>
                (case kms_signature_algo_setter b
                        (''RSASSA_PSS_SHA'' @ ''_'' @ last3 (u_hash_algo b)) of
                   (Inl e, b') \<Rightarrow> (Inl e, b')
                 | (Inr _, b') \<Rightarrow>
                     (Inr (Some (SignedDigestAlgorithm ''rsassa_pss''
                        \<lparr>hash_algorithm = u_hash_algo b,
                         mask_gen_algorithm = (''mgf1'', u_hash_algo b),
                         salt_length = w div 8\<rparr>)), b')))
         else
           (case kms_signature_algo_setter b
                   (''RSASSA_PKCS1_V1_5_SHA'' @ ''_'' @ last3 (u_hash_algo b)) of
              (Inl e, b') \<Rightarrow> (Inl e, b')
            | (Inr _, b') \<Rightarrow>
                (Inr (Some (AlgorithmDict (u_hash_algo b @ ''_'' @ signature_algo))), b')))
      else (Inr None, b))"

text \<open>
  The extensions of the request: \<^verbatim>\<open>_make_extension\<close> for each special extension that is
  set, in the sorted order of their names, then for each key of \<^verbatim>\<open>_other_extensions\<close> in
  sorted order.
\<close>

definition make_extension :: "builder \<Rightarrow> string \<Rightarrow> asn1_value \<Rightarrow> error + extension" where
  "make_extension b n v =
     (case determine_critical b n of
        Inl e \<Rightarrow> Inl e
      | Inr c \<Rightarrow> Inr \<lparr>extn_id = n, critical = c, extn_value = v\<rparr>)"

fun make_extensions :: "builder \<Rightarrow> (string \<times> asn1_value) list \<Rightarrow> error + extension list" where
  "make_extensions b [] = Inr []"
| "make_extensions b ((n, v) # rest) =
     (case make_extension b n v of
        Inl e \<Rightarrow> Inl e
      | Inr x \<Rightarrow> (case make_extensions b rest of Inl e \<Rightarrow> Inl e | Inr xs \<Rightarrow> Inr (x # xs)))"

definition special_items :: "builder \<Rightarrow> (string \<times> asn1_value) list" where
  "special_items b =
     List.map_filter (\<lambda>n. map_option (Pair n) (getattr_special b n)) (sort special_extensions)"

definition other_items :: "builder \<Rightarrow> (string \<times> asn1_value) list" where
  "other_items b =
     List.map_filter (\<lambda>n. map_option (Pair n) (map_of (u_other_extensions b) n))
       (sort (map fst (u_other_extensions b)))"

definition extension_list :: "builder \<Rightarrow> error + extension list" where
  "extension_list b = make_extensions b (special_items b @ other_items b)"

definition request_info_of :: "builder \<Rightarrow> extension list \<Rightarrow> certification_request_info" where
  "request_info_of b extensions =
     \<lparr>version = ''v1'',
      subject = u_subject b,
      subject_pk_info = u_subject_public_key b,
      attributes =
        (if extensions = [] then [] else [Attribute ''extension_request'' [extensions]])\<rparr>"

text \<open>
  \<^verbatim>\<open>build_with_kms\<close>: the key's algorithm names (a key with no
  \<^verbatim>\<open>SigningAlgorithms\<close> in its metadata makes the subscript raise KeyError), the
  negotiation, the request information, the signature over its serialisation under the
  name just stored in \<^verbatim>\<open>_kms_signature_algo\<close>, and the request.
\<close>

definition build_with_kms ::
  "asn1lib \<Rightarrow> kms_client \<Rightarrow> builder \<Rightarrow> string \<Rightarrow> (error + certification_request) \<times> builder"
where
  "build_with_kms lib kms b arn =
     (case describe_key kms arn of
        Inl e \<Rightarrow> (Inl e, b)
      | Inr metadata \<Rightarrow>
     (case SigningAlgorithms metadata of
        None \<Rightarrow> (Inl KeyError, b)
      | Some kms_algos \<Rightarrow>
     (case select_key_type kms_algos of
        None \<Rightarrow> (Inl UnboundLocalError, b)
      | Some signature_algo \<Rightarrow>
     (case negotiate b signature_algo of
        (Inl e, b') \<Rightarrow> (Inl e, b')
      | (Inr signature_algorithm_id, b') \<Rightarrow>
     (case extension_list b' of
        Inl e \<Rightarrow> (Inl e, b')
      | Inr extensions \<Rightarrow>
     (case sign kms arn (u_kms_signature_algo b') (dump lib (request_info_of b' extensions)) of
        Inl e \<Rightarrow> (Inl e, b')
      | Inr sig \<Rightarrow>
     (case signature_algorithm_id of
        None \<Rightarrow> (Inl UnboundLocalError, b')
      | Some sid \<Rightarrow>
          (Inr \<lparr>request_info = request_info_of b' extensions,
                signature_algorithm = sid,
                signature = sig\<rparr>, b'))))))))"

text \<open>The names of the extensions a request information asks for, in their order.\<close>

definition extension_names :: "certification_request_info \<Rightarrow> string list" where
  "extension_names cri =
     concat (map (\<lambda>a. concat (map (map extn_id) (attr_values a))) (attributes cri))"

section \<open>Stubs of the collaborators, for concrete runs\<close>

definition stub_lib :: asn1lib where
  "stub_lib =
     \<lparr>extn_id_native = (\<lambda>n. if n = [] then Inl ValueError else Inr n),
      isinstance_spec = (\<lambda>n v.
        case v of
          BasicConstraints c p \<Rightarrow> n = ''basic_constraints''
        | GeneralNames gs \<Rightarrow> n = ''subject_alt_name'' \<or> n = ''issuer_alt_name''
        | KeyUsage u \<Rightarrow> n = ''key_usage''
        | ExtKeyUsageSyntax u \<Rightarrow> n = ''extended_key_usage''
        | Asn1Value c d \<Rightarrow> n \<notin> set special_extensions),
      general_name_native = (\<lambda>n v. if v = [] then Inl ValueError else Inr v),
      load_public_key = (\<lambda>raw. if raw = [] then Inl ValueError else Inr (PublicKeyInfo raw)),
      dump = (\<lambda>cri. version cri @ concat (map fst (subject cri))
                     @ concat (extension_names cri))\<rparr>"

text \<open>
  A KMS stub whose one key \<^verbatim>\<open>key-1\<close> reports the given usage and algorithm names; any
  other key reference makes \<^verbatim>\<open>get_public_key\<close> and \<^verbatim>\<open>describe_key\<close> raise.
\<close>

definition stub_kms :: "string \<Rightarrow> string list \<Rightarrow> kms_client" where
  "stub_kms usage algos =
     \<lparr>get_public_key = (\<lambda>k. if k = ''key-1''
                              then Inr \<lparr>KeyUsage_of = usage, PublicKey_of = ''pk''\<rparr>
                              else Inl ClientError),
      describe_key = (\<lambda>k. if k = ''key-1''
                            then Inr \<lparr>SigningAlgorithms = Some algos\<rparr>
                            else Inl ClientError),
      sign = (\<lambda>k a m. if k = ''key-1'' then Inr (a @ '':'' @ m) else Inl ClientError)\<rparr>"

definition rsa_algos :: "string list" where
  "rsa_algos =
     [''RSASSA_PKCS1_V1_5_SHA_256'', ''RSASSA_PKCS1_V1_5_SHA_384'',
      ''RSASSA_PKCS1_V1_5_SHA_512'',
      ''RSASSA_PSS_SHA_256'', ''RSASSA_PSS_SHA_384'', ''RSASSA_PSS_SHA_512'']"

text \<open>
  The builder \<^verbatim>\<open>KMSCSRBuilder({'common_name': 'example'}, 'key-1')\<close> as \<^verbatim>\<open>__init__\<close>
  leaves it: \<^verbatim>\<open>ca = False\<close>, hash \<^verbatim>\<open>sha256\<close>, preference \<^verbatim>\<open>RSASSA_PSS_SHA_256\<close>.
\<close>

definition example_builder :: builder where
  "example_builder =
     \<lparr>u_subject = [(''common_name'', ''example'')],
      u_kms_arn = ''key-1'',
      u_subject_public_key = PublicKeyInfo ''pk'',
      u_hash_algo = ''sha256'',
      u_basic_constraints = Some (BasicConstraints False None),
      u_subject_alt_name = None,
      u_key_usage = Some (KeyUsage {''digital_signature'', ''key_encipherment''}),
      u_extended_key_usage = Some (ExtKeyUsageSyntax [''server_auth'', ''client_auth'']),
      u_other_extensions = [],
      u_kms_signature_algo = ''RSASSA_PSS_SHA_256''\<rparr>"

text \<open>
  The same builder after \<^verbatim>\<open>set_extension('tls_feature', ...)\<close> and then
  \<^verbatim>\<open>set_extension('issuer_alt_name', ...)\<close>.
\<close>

definition example_builder_ext :: builder where
  "example_builder_ext =
     example_builder\<lparr>u_other_extensions :=
       [(''tls_feature'', Asn1Value ''Features'' ''05''),
        (''issuer_alt_name'', GeneralNames [GeneralName ''dns_name'' ''ca.example''])]\<rparr>"

text \<open>The general names the subject alternative name field holds; none when it is unset.\<close>

definition san_list :: "builder \<Rightarrow> general_name list" where
  "san_list b = (case u_subject_alt_name b of Some (GeneralNames gs) \<Rightarrow> gs | _ \<Rightarrow> [])"

text \<open>
  The same builder with a subject alternative name of one DNS name and one IP address.
\<close>

definition example_builder_san :: builder where
  "example_builder_san =
     example_builder\<lparr>u_subject_alt_name :=
       Some (GeneralNames [GeneralName ''dns_name'' ''a.example'',
                           GeneralName ''ip_address'' ''10.0.0.1''])\<rparr>"

text \<open>
  A library that rejects \<^verbatim>\<open>not-an-ip\<close> as an IP address, as
  \<^verbatim>\<open>x509.GeneralName(name='ip_address', value='not-an-ip')\<close> raises ValueError, and a
  builder whose subject alternative name holds one IP address.
\<close>

definition rejecting_lib :: asn1lib where
  "rejecting_lib =
     stub_lib\<lparr>general_name_native :=
       (\<lambda>n v. if n = ''ip_address'' \<and> v = ''not-an-ip'' then Inl ValueError else Inr v)\<rparr>"

definition example_builder_ip :: builder where
  "example_builder_ip =
     example_builder\<lparr>u_subject_alt_name :=
       Some (GeneralNames [GeneralName ''ip_address'' ''10.0.0.1''])\<rparr>"

section \<open>The setter of \<^verbatim>\<open>kms_arn\<close>\<close>

lemma kms_arn_setter_usage_mismatch:
  "get_public_key kms v = Inr r \<Longrightarrow> KeyUsage_of r \<noteq> ''SIGN_VERIFY'' \<Longrightarrow>
   kms_arn_setter lib kms b v = (Inl ValueError, b)"
  by (simp add: kms_arn_setter_def)

lemma kms_arn_setter_success:
  "get_public_key kms v = Inr r \<Longrightarrow> KeyUsage_of r = ''SIGN_VERIFY'' \<Longrightarrow>
   load_public_key lib (PublicKey_of r) = Inr pk \<Longrightarrow>
   kms_arn_setter lib kms b v = (Inr (), b\<lparr>u_subject_public_key := pk, u_kms_arn := v\<rparr>)"
  by (simp add: kms_arn_setter_def)

lemma kms_arn_setter_raise_keeps_state:
  "kms_arn_setter lib kms b v = (Inl e, b') \<Longrightarrow> b' = b"
  by (auto simp add: kms_arn_setter_def split: sum.splits if_splits)

text \<open>
  C1. The claim asks that the setter of \<^verbatim>\<open>kms_arn\<close> fail with a ConfigurationError (the
  code's ValueError) exactly when the lookup of the public key fails or the key's usage is
  not \<^verbatim>\<open>SIGN_VERIFY\<close>. The usage mismatch does raise ValueError
  (\<open>kms_arn_setter_usage_mismatch\<close>) and a successful call stores the public key
  (\<open>kms_arn_setter_success\<close>), but a failed lookup does not: whatever
  \<^verbatim>\<open>kms.get_public_key\<close> raised is caught and printed, and the setter then raises
  UnboundLocalError on the unassigned \<^verbatim>\<open>PKresponse\<close>.
\<close>

theorem kms_arn_lookup_failure_unbound:
  "kms_arn_setter lib (kms\<lparr>get_public_key := \<lambda>k. Inl e\<rparr>) b v = (Inl UnboundLocalError, b)"
  by (simp add: kms_arn_setter_def)

section \<open>The key type\<close>

lemma select_key_type_rsa:
  "''RSASSA_PSS_SHA_256'' \<in> set algos \<Longrightarrow> select_key_type algos = Some ''rsa''"
  by (simp add: select_key_type_def)

lemma select_key_type_ecdsa:
  "''RSASSA_PSS_SHA_256'' \<notin> set algos \<Longrightarrow> ''ECDSA_SHA_256'' \<in> set algos \<Longrightarrow>
   select_key_type algos = Some ''ecdsa''"
  by (simp add: select_key_type_def)

lemma select_key_type_cases:
  "select_key_type algos = Some kt \<Longrightarrow> kt = ''rsa'' \<or> kt = ''ecdsa''"
  by (auto simp add: select_key_type_def split: if_splits)

text \<open>
  C2. The claim asks for the key type RSA when any RSA-PSS name is reported, else EC when
  any ECDSA name is reported, else a ConfigurationError. The code looks for the two names
  \<^verbatim>\<open>RSASSA_PSS_SHA_256\<close> and \<^verbatim>\<open>ECDSA_SHA_256\<close> only, and its \<^verbatim>\<open>if\<close>/\<^verbatim>\<open>elif\<close> has
  no \<^verbatim>\<open>else\<close>: for a key reporting \<^verbatim>\<open>ECDSA_SHA_384\<close> alone (a NIST P-384 key), and for
  a key reporting no RSA or ECDSA name at all (\<^verbatim>\<open>SM2DSA\<close>), \<^verbatim>\<open>signature_algo\<close> is never
  assigned and \<^verbatim>\<open>build_with_kms\<close> raises UnboundLocalError, with the builder as it was.
\<close>

theorem key_type_unmatched_unbound:
  "build_with_kms lib
     (kms\<lparr>describe_key := \<lambda>k. Inr \<lparr>SigningAlgorithms = Some [''ECDSA_SHA_384'']\<rparr>\<rparr>) b arn
     = (Inl UnboundLocalError, b)
   \<and> build_with_kms lib
     (kms\<lparr>describe_key := \<lambda>k. Inr \<lparr>SigningAlgorithms = Some [''SM2DSA'']\<rparr>\<rparr>) b arn
     = (Inl UnboundLocalError, b)"
  by (simp add: build_with_kms_def select_key_type_def)

section \<open>The criticality of an extension\<close>

lemma determine_critical_san:
  "determine_critical b ''subject_alt_name'' = Inr (u_subject b = [])"
  by (simp add: determine_critical_def)

lemma determine_critical_bc:
  "determine_critical b ''basic_constraints'' =
     (case ca b of Inl e \<Rightarrow> Inl e | Inr c \<Rightarrow> Inr (c = Some True))"
  by (simp add: determine_critical_def)

lemma determine_critical_unknown:
  assumes n: "n \<notin> {''subject_alt_name'', ''basic_constraints''} \<union> fst ` set critical_table"
  shows "determine_critical b n = Inr False"
proof -
  from n have "n \<notin> fst ` set critical_table" by blast
  then have "map_of critical_table n = None"
    by (rule map_of_eq_None_iff [THEN iffD2])
  moreover from n have "n \<noteq> ''subject_alt_name''" "n \<noteq> ''basic_constraints''" by blast+
  ultimately show ?thesis
    by (simp add: determine_critical_def)
qed

lemma determine_critical_unlisted:
  assumes n: "n \<notin> {''subject_alt_name'', ''basic_constraints'', ''key_usage'',
                  ''name_constraints'', ''policy_mappings'', ''policy_constraints'',
                  ''inhibit_any_policy'', ''issuer_alt_name'', ''certificate_policies'',
                  ''extended_key_usage'', ''subject_information_access'', ''tls_feature'',
                  ''ocsp_no_check''}"
  shows "determine_critical b n = Inr False"
proof (cases "n = ''subject_directory_attributes''")
  case True
  then show ?thesis
    by (simp add: determine_critical_def critical_table_def)
next
  case False
  with n have "n \<notin> {''subject_alt_name'', ''basic_constraints''} \<union> fst ` set critical_table"
    by (simp add: critical_table_def)
  then show ?thesis by (rule determine_critical_unknown)
qed

text \<open>
  C4. \<^verbatim>\<open>_determine_critical\<close> is a lookup that changes nothing. For
  \<^verbatim>\<open>subject_alt_name\<close> it is true exactly when the subject is empty; for
  \<^verbatim>\<open>basic_constraints\<close> it is true exactly when \<^verbatim>\<open>ca\<close> reads \<^verbatim>\<open>True\<close>, and it is the
  boolean \<^verbatim>\<open>ca is True\<close> whenever \<^verbatim>\<open>ca\<close> can be read; it is true for \<^verbatim>\<open>key_usage\<close>,
  \<^verbatim>\<open>name_constraints\<close>, \<^verbatim>\<open>policy_mappings\<close>, \<^verbatim>\<open>policy_constraints\<close> and
  \<^verbatim>\<open>inhibit_any_policy\<close>, false for \<^verbatim>\<open>issuer_alt_name\<close>, \<^verbatim>\<open>certificate_policies\<close>,
  \<^verbatim>\<open>extended_key_usage\<close>, \<^verbatim>\<open>subject_information_access\<close>, \<^verbatim>\<open>tls_feature\<close> and
  \<^verbatim>\<open>ocsp_no_check\<close>, and false for every name other than these thirteen
  (\<^verbatim>\<open>subject_directory_attributes\<close>, which the table holds as false, among them).
\<close>

theorem determine_critical_lookup:
  "determine_critical b ''subject_alt_name'' = Inr (u_subject b = [])
   \<and> (determine_critical b ''basic_constraints'' = Inr True \<longleftrightarrow> ca b = Inr (Some True))
   \<and> (\<forall>c. ca b = Inr c \<longrightarrow> determine_critical b ''basic_constraints'' = Inr (c = Some True))
   \<and> (\<forall>n \<in> {''key_usage'', ''name_constraints'', ''policy_mappings'', ''policy_constraints'',
              ''inhibit_any_policy''}. determine_critical b n = Inr True)
   \<and> (\<forall>n \<in> {''issuer_alt_name'', ''certificate_policies'', ''extended_key_usage'',
              ''subject_information_access'', ''tls_feature'', ''ocsp_no_check''}.
         determine_critical b n = Inr False)
   \<and> (\<forall>n. n \<notin> {''subject_alt_name'', ''basic_constraints'', ''key_usage'',
                  ''name_constraints'', ''policy_mappings'', ''policy_constraints'',
                  ''inhibit_any_policy'', ''issuer_alt_name'', ''certificate_policies'',
                  ''extended_key_usage'', ''subject_information_access'', ''tls_feature'',
                  ''ocsp_no_check''} \<longrightarrow>
         determine_critical b n = Inr False)"
proof (intro conjI)
  show "determine_critical b ''subject_alt_name'' = Inr (u_subject b = [])"
    by (rule determine_critical_san)
  show "determine_critical b ''basic_constraints'' = Inr True \<longleftrightarrow> ca b = Inr (Some True)"
    unfolding determine_critical_bc by (auto split: sum.splits)
  show "\<forall>c. ca b = Inr c \<longrightarrow> determine_critical b ''basic_constraints'' = Inr (c = Some True)"
    unfolding determine_critical_bc by simp
  show "\<forall>n \<in> {''key_usage'', ''name_constraints'', ''policy_mappings'', ''policy_constraints'',
      ''inhibit_any_policy''}. determine_critical b n = Inr True"
    by (simp add: determine_critical_def critical_table_def)
  show "\<forall>n \<in> {''issuer_alt_name'', ''certificate_policies'', ''extended_key_usage'',
      ''subject_information_access'', ''tls_feature'', ''ocsp_no_check''}.
      determine_critical b n = Inr False"
    by (simp add: determine_critical_def critical_table_def)
  show "\<forall>n. n \<notin> {''subject_alt_name'', ''basic_constraints'', ''key_usage'',
                  ''name_constraints'', ''policy_mappings'', ''policy_constraints'',
                  ''inhibit_any_policy'', ''issuer_alt_name'', ''certificate_policies'',
                  ''extended_key_usage'', ''subject_information_access'', ''tls_feature'',
                  ''ocsp_no_check''}
      \<longrightarrow> determine_critical b n = Inr False"
    by (intro allI impI) (rule determine_critical_unlisted)
qed

theorem determine_critical_lookup_witness:
  "ca example_builder = Inr (Some False)
   \<and> determine_critical example_builder ''basic_constraints'' = Inr False
   \<and> ca (ca_setter example_builder (Some True)) = Inr (Some True)
   \<and> determine_critical (ca_setter example_builder (Some True)) ''basic_constraints'' = Inr True
   \<and> determine_critical example_builder ''key_usage'' = Inr True
   \<and> determine_critical example_builder ''tls_feature'' = Inr False
   \<and> determine_critical example_builder ''no_such_extension'' = Inr False
   \<and> determine_critical example_builder ''subject_directory_attributes'' = Inr False"
proof -
  have c: "ca example_builder = Inr (Some False)"
    by (simp add: ca_def example_builder_def)
  have c': "ca (ca_setter example_builder (Some True)) = Inr (Some True)"
    by (simp add: ca_def ca_setter_def example_builder_def)
  have u: "''no_such_extension'' \<notin> {''subject_alt_name'', ''basic_constraints'', ''key_usage'',
                  ''name_constraints'', ''policy_mappings'', ''policy_constraints'',
                  ''inhibit_any_policy'', ''issuer_alt_name'', ''certificate_policies'',
                  ''extended_key_usage'', ''subject_information_access'', ''tls_feature'',
                  ''ocsp_no_check''}"
    by simp
  have u': "''subject_directory_attributes'' \<notin> {''subject_alt_name'', ''basic_constraints'', ''key_usage'',
                  ''name_constraints'', ''policy_mappings'', ''policy_constraints'',
                  ''inhibit_any_policy'', ''issuer_alt_name'', ''certificate_policies'',
                  ''extended_key_usage'', ''subject_information_access'', ''tls_feature'',
                  ''ocsp_no_check''}"
    by simp
  note t = determine_critical_lookup [of example_builder]
  note t' = determine_critical_lookup [of "ca_setter example_builder (Some True)"]
  from t have t3: "\<forall>c. ca example_builder = Inr c \<longrightarrow>
      determine_critical example_builder ''basic_constraints'' = Inr (c = Some True)"
    by (elim conjE)
  from t' have t3': "\<forall>c. ca (ca_setter example_builder (Some True)) = Inr c \<longrightarrow>
      determine_critical (ca_setter example_builder (Some True)) ''basic_constraints'' = Inr (c = Some True)"
    by (elim conjE)
  from t have t4: "\<forall>n \<in> {''key_usage'', ''name_constraints'', ''policy_mappings'', ''policy_constraints'',
              ''inhibit_any_policy''}. determine_critical example_builder n = Inr True"
    by (elim conjE)
  from t have t5: "\<forall>n \<in> {''issuer_alt_name'', ''certificate_policies'', ''extended_key_usage'',
              ''subject_information_access'', ''tls_feature'', ''ocsp_no_check''}.
         determine_critical example_builder n = Inr False"
    by (elim conjE)
  from t have t6: "\<forall>n. n \<notin> {''subject_alt_name'', ''basic_constraints'', ''key_usage'',
                  ''name_constraints'', ''policy_mappings'', ''policy_constraints'',
                  ''inhibit_any_policy'', ''issuer_alt_name'', ''certificate_policies'',
                  ''extended_key_usage'', ''subject_information_access'', ''tls_feature'',
                  ''ocsp_no_check''} \<longrightarrow>
         determine_critical example_builder n = Inr False"
    by (elim conjE)
  have 1: "determine_critical example_builder ''basic_constraints'' = Inr False"
    using t3 [rule_format, OF c] by simp
  have 2: "determine_critical (ca_setter example_builder (Some True)) ''basic_constraints'' = Inr True"
    using t3' [rule_format, OF c'] by simp
  have 3: "determine_critical example_builder ''key_usage'' = Inr True"
    using t4 by simp
  have 4: "determine_critical example_builder ''tls_feature'' = Inr False"
    using t5 by simp
  have 5: "determine_critical example_builder ''no_such_extension'' = Inr False"
    using t6 [rule_format, OF u] .
  have 6: "determine_critical example_builder ''subject_directory_attributes'' = Inr False"
    using t6 [rule_format, OF u'] .
  show ?thesis
    by (intro conjI) (fact c 1 c' 2 3 4 5 6)+
qed

section \<open>The request information\<close>

lemma sort_special_extensions:
  "sort special_extensions =
     [''basic_constraints'', ''extended_key_usage'', ''key_usage'', ''subject_alt_name'']"
  by (simp add: special_extensions_def)

lemma make_extension_id:
  "make_extension b n v = Inr x \<Longrightarrow> extn_id x = n \<and> extn_value x = v"
  by (auto simp add: make_extension_def split: sum.splits)

lemma make_extensions_names:
  "make_extensions b items = Inr xs \<Longrightarrow> map extn_id xs = map fst items"
proof (induction items arbitrary: xs)
  case Nil
  then show ?case by simp
next
  case (Cons item items)
  obtain n v where item: "item = (n, v)" by (cases item)
  from Cons.prems item obtain x ys where
    x: "make_extension b n v = Inr x" and ys: "make_extensions b items = Inr ys"
    and xs: "xs = x # ys"
    by (auto split: sum.splits)
  from Cons.IH [OF ys] make_extension_id [OF x] item xs show ?case by simp
qed

lemma map_fst_map_filter_Pair:
  "map fst (List.map_filter (\<lambda>n. map_option (Pair n) (f n)) ns) = filter (\<lambda>n. f n \<noteq> None) ns"
  by (induction ns) (auto simp add: List.map_filter_simps split: option.splits)

lemma special_items_names:
  "map fst (special_items b) =
     filter (\<lambda>n. getattr_special b n \<noteq> None) (sort special_extensions)"
  unfolding special_items_def by (rule map_fst_map_filter_Pair)

lemma other_items_names:
  "map fst (other_items b) = sort (map fst (u_other_extensions b))"
proof -
  have "\<forall>n \<in> set (sort (map fst (u_other_extensions b))). map_of (u_other_extensions b) n \<noteq> None"
    by (simp add: map_of_eq_None_iff)
  then have "filter (\<lambda>n. map_of (u_other_extensions b) n \<noteq> None)
               (sort (map fst (u_other_extensions b))) = sort (map fst (u_other_extensions b))"
    by (simp only: filter_id_conv)
  then show ?thesis
    unfolding other_items_def by (simp only: map_fst_map_filter_Pair)
qed

lemma extension_names_request_info_of:
  "extension_names (request_info_of b exts) = map extn_id exts"
  by (simp add: extension_names_def request_info_of_def)

lemma extension_list_names:
  assumes "extension_list b = Inr exts"
  shows "map extn_id exts =
           filter (\<lambda>n. getattr_special b n \<noteq> None) (sort special_extensions)
           @ sort (map fst (u_other_extensions b))"
proof -
  from assms have "map extn_id exts = map fst (special_items b @ other_items b)"
    unfolding extension_list_def by (rule make_extensions_names)
  then show ?thesis
    by (simp only: map_append special_items_names other_items_names)
qed

lemma kms_signature_algo_setter_cases:
  "kms_signature_algo_setter b v = (r, b') \<Longrightarrow>
     (r = Inl ValueError \<and> b' = b \<and> v \<notin> set valid_algos) \<or>
     (r = Inr () \<and> b' = b\<lparr>u_kms_signature_algo := v\<rparr> \<and> v \<in> set valid_algos)"
  by (auto simp add: kms_signature_algo_setter_def split: if_splits)

lemma negotiate_rsa_unfold:
  "negotiate b ''rsa'' =
     (if py_in_str ''PSS'' (u_kms_signature_algo b) then
           (case py_int (last3 (u_hash_algo b)) of
              Inl e \<Rightarrow> (Inl e, b)
            | Inr w \<Rightarrow>
                (case kms_signature_algo_setter b
                        (''RSASSA_PSS_SHA'' @ ''_'' @ last3 (u_hash_algo b)) of
                   (Inl e, b') \<Rightarrow> (Inl e, b')
                 | (Inr _, b') \<Rightarrow>
                     (Inr (Some (SignedDigestAlgorithm ''rsassa_pss''
                        \<lparr>hash_algorithm = u_hash_algo b,
                         mask_gen_algorithm = (''mgf1'', u_hash_algo b),
                         salt_length = w div 8\<rparr>)), b')))
         else
           (case kms_signature_algo_setter b
                   (''RSASSA_PKCS1_V1_5_SHA'' @ ''_'' @ last3 (u_hash_algo b)) of
              (Inl e, b') \<Rightarrow> (Inl e, b')
            | (Inr _, b') \<Rightarrow>
                (Inr (Some (AlgorithmDict (u_hash_algo b @ ''_'' @ ''rsa''))), b')))"
proof -
  have "\<not> py_in_str ''ecdsa'' ''rsa''" "py_in_str ''rsa'' ''rsa''" by simp_all
  then show ?thesis unfolding negotiate_def by (simp only: if_True if_False)
qed

lemma negotiate_ecdsa_unfold:
  "negotiate b ''ecdsa'' =
        (case kms_signature_algo_setter b (''ECDSA_SHA'' @ ''_'' @ last3 (u_hash_algo b)) of
           (Inl e, b') \<Rightarrow> (Inl e, b')
         | (Inr _, b') \<Rightarrow>
             (Inr (Some (AlgorithmDict (u_hash_algo b @ ''_'' @ ''ecdsa''))), b'))"
proof -
  have "py_in_str ''ecdsa'' ''ecdsa''" by simp
  then show ?thesis unfolding negotiate_def by (simp only: if_True)
qed

lemma negotiate_success:
  assumes "negotiate b kt = (Inr s, b')" and "kt = ''rsa'' \<or> kt = ''ecdsa''"
  shows "b' = b\<lparr>u_kms_signature_algo :=
             (if kt = ''ecdsa'' then ''ECDSA_SHA_''
              else if py_in_str ''PSS'' (u_kms_signature_algo b) then ''RSASSA_PSS_SHA_''
              else ''RSASSA_PKCS1_V1_5_SHA_'') @ last3 (u_hash_algo b)\<rparr>
         \<and> u_kms_signature_algo b' \<in> set valid_algos \<and> s \<noteq> None"
proof -
  from assms(2) show ?thesis
  proof
    assume kt: "kt = ''rsa''"
    from assms(1) show ?thesis
      unfolding kt negotiate_rsa_unfold
      by (auto simp add: kms_signature_algo_setter_def split: if_splits sum.splits)
  next
    assume kt: "kt = ''ecdsa''"
    from assms(1) show ?thesis
      unfolding kt negotiate_ecdsa_unfold
      by (auto simp add: kms_signature_algo_setter_def split: if_splits sum.splits)
  qed
qed

lemma build_with_kms_success:
  assumes "build_with_kms lib kms b arn = (Inr r, b')"
  shows "\<exists>metadata kms_algos kt exts.
           describe_key kms arn = Inr metadata
         \<and> SigningAlgorithms metadata = Some kms_algos
         \<and> select_key_type kms_algos = Some kt
         \<and> negotiate b kt = (Inr (Some (signature_algorithm r)), b')
         \<and> extension_list b' = Inr exts
         \<and> request_info r = request_info_of b' exts
         \<and> sign kms arn (u_kms_signature_algo b') (dump lib (request_info r))
             = Inr (signature r)"
  using assms unfolding build_with_kms_def
  by (auto split: sum.splits option.splits prod.splits)

lemmas build_eval_defs =
  build_with_kms_def stub_kms_def stub_lib_def example_builder_def select_key_type_def
  negotiate_def kms_signature_algo_setter_def valid_algos_def last3_def py_int_def is_digit_def
  digit_value_def extension_list_def special_items_def other_items_def getattr_special_def
  make_extension_def determine_critical_def ca_def critical_table_def request_info_of_def
  extension_names_def List.map_filter_simps sort_special_extensions rsa_algos_def
  example_builder_ext_def

lemma determine_critical_cong:
  assumes "u_subject b2 = u_subject b1" and "u_basic_constraints b2 = u_basic_constraints b1"
  shows "determine_critical b2 n = determine_critical b1 n"
  by (simp add: determine_critical_def ca_def assms)

lemma make_extensions_cong:
  assumes "u_subject b2 = u_subject b1" and "u_basic_constraints b2 = u_basic_constraints b1"
  shows "make_extensions b2 items = make_extensions b1 items"
proof (induction items)
  case Nil
  show ?case by simp
next
  case (Cons item items)
  obtain n v where item: "item = (n, v)" by (cases item)
  have "make_extension b2 n v = make_extension b1 n v"
    by (simp only: make_extension_def determine_critical_cong [OF assms])
  with Cons.IH item show ?case by (simp cong: sum.case_cong)
qed

lemma extension_list_cong:
  assumes "u_subject b2 = u_subject b1"
      and "u_basic_constraints b2 = u_basic_constraints b1"
      and "u_subject_alt_name b2 = u_subject_alt_name b1"
      and "u_key_usage b2 = u_key_usage b1"
      and "u_extended_key_usage b2 = u_extended_key_usage b1"
      and "u_other_extensions b2 = u_other_extensions b1"
  shows "extension_list b2 = extension_list b1"
proof -
  have "getattr_special b2 = getattr_special b1"
    by (rule ext) (simp add: getattr_special_def assms)
  then have "special_items b2 = special_items b1"
    by (simp only: special_items_def)
  moreover have "other_items b2 = other_items b1"
    by (simp only: other_items_def assms)
  ultimately show ?thesis
    by (simp only: extension_list_def make_extensions_cong [OF assms(1,2)])
qed

lemma build_with_kms_frame:
  assumes "build_with_kms lib kms b arn = (Inr r, b')"
  shows "\<exists>v. b' = b\<lparr>u_kms_signature_algo := v\<rparr>"
proof -
  from build_with_kms_success [OF assms] obtain kms_algos kt where
    kt: "select_key_type kms_algos = Some kt"
    and n: "negotiate b kt = (Inr (Some (signature_algorithm r)), b')"
    by blast
  from negotiate_success [OF n select_key_type_cases [OF kt]] show ?thesis by blast
qed

text \<open>
  C3. Two builds from builders with the same subject, public key and extension state (the
  second may be the builder the first build left, whose \<^verbatim>\<open>_kms_signature_algo\<close> was
  overwritten; the keys and the KMS may differ) that both return a request sign the same
  bytes: their request informations are equal, hence their serialisations, and these are the
  messages passed to \<^verbatim>\<open>kms.sign\<close>. The extension request lists the special extensions
  that are set, in the sorted order of their names, and then the other extensions in the
  sorted order of their names.
\<close>

theorem build_tbs_deterministic:
  assumes "build_with_kms lib kms1 b1 arn1 = (Inr r1, b1')"
      and "build_with_kms lib kms2 b2 arn2 = (Inr r2, b2')"
      and "u_subject b2 = u_subject b1"
      and "u_subject_public_key b2 = u_subject_public_key b1"
      and "u_basic_constraints b2 = u_basic_constraints b1"
      and "u_subject_alt_name b2 = u_subject_alt_name b1"
      and "u_key_usage b2 = u_key_usage b1"
      and "u_extended_key_usage b2 = u_extended_key_usage b1"
      and "u_other_extensions b2 = u_other_extensions b1"
  shows "request_info r2 = request_info r1
       \<and> dump lib (request_info r2) = dump lib (request_info r1)
       \<and> sign kms1 arn1 (u_kms_signature_algo b1') (dump lib (request_info r1))
           = Inr (signature r1)
       \<and> sign kms2 arn2 (u_kms_signature_algo b2') (dump lib (request_info r2))
           = Inr (signature r2)
       \<and> extension_names (request_info r1) =
           filter (\<lambda>n. getattr_special b1 n \<noteq> None)
             [''basic_constraints'', ''extended_key_usage'', ''key_usage'', ''subject_alt_name'']
           @ sort (map fst (u_other_extensions b1))"
proof -
  from build_with_kms_success [OF assms(1)] obtain exts1 where
    e1: "extension_list b1' = Inr exts1" and r1: "request_info r1 = request_info_of b1' exts1"
    and s1: "sign kms1 arn1 (u_kms_signature_algo b1') (dump lib (request_info r1))
               = Inr (signature r1)"
    by blast
  from build_with_kms_success [OF assms(2)] obtain exts2 where
    e2: "extension_list b2' = Inr exts2" and r2: "request_info r2 = request_info_of b2' exts2"
    and s2: "sign kms2 arn2 (u_kms_signature_algo b2') (dump lib (request_info r2))
               = Inr (signature r2)"
    by blast
  from build_with_kms_frame [OF assms(1)] obtain v1 where b1': "b1' = b1\<lparr>u_kms_signature_algo := v1\<rparr>"
    by blast
  from build_with_kms_frame [OF assms(2)] obtain v2 where b2': "b2' = b2\<lparr>u_kms_signature_algo := v2\<rparr>"
    by blast
  have l1: "extension_list b1' = extension_list b1"
    by (rule extension_list_cong) (simp_all add: b1')
  have l2: "extension_list b2' = extension_list b1"
    by (rule extension_list_cong) (simp_all add: b2' assms(3-9))
  from e1 e2 l1 l2 have exts: "exts2 = exts1" by simp
  have "request_info_of b2' exts1 = request_info_of b1' exts1"
    by (simp add: request_info_of_def b1' b2' assms(3,4))
  with r1 r2 exts have same: "request_info r2 = request_info r1" by simp
  from e1 l1 have "extension_list b1 = Inr exts1" by simp
  from extension_list_names [OF this] r1
  have names: "extension_names (request_info r1) =
           filter (\<lambda>n. getattr_special b1 n \<noteq> None)
             [''basic_constraints'', ''extended_key_usage'', ''key_usage'', ''subject_alt_name'']
           @ sort (map fst (u_other_extensions b1))"
    by (simp only: extension_names_request_info_of sort_special_extensions)
  from same s1 s2 names show ?thesis by simp
qed

lemma example_build_ext_first:
  "\<exists>r. build_with_kms stub_lib (stub_kms ''SIGN_VERIFY'' [''ECDSA_SHA_256'']) example_builder_ext
          ''key-1'' = (Inr r, example_builder_ext\<lparr>u_kms_signature_algo := ''ECDSA_SHA_256''\<rparr>)"
  by (simp add: build_eval_defs)

lemma example_build_ext_second:
  "\<exists>r b'. build_with_kms stub_lib (stub_kms ''SIGN_VERIFY'' [''ECDSA_SHA_256''])
          (example_builder_ext\<lparr>u_kms_signature_algo := ''ECDSA_SHA_256''\<rparr>)
          ''key-1'' = (Inr r, b')"
  by (simp add: build_eval_defs)

theorem build_tbs_deterministic_witness:
  "\<exists>r1 b1 r2 b2.
     build_with_kms stub_lib (stub_kms ''SIGN_VERIFY'' [''ECDSA_SHA_256'']) example_builder_ext
       ''key-1'' = (Inr r1, b1)
   \<and> build_with_kms stub_lib (stub_kms ''SIGN_VERIFY'' [''ECDSA_SHA_256'']) b1 ''key-1''
       = (Inr r2, b2)
   \<and> u_kms_signature_algo b1 \<noteq> u_kms_signature_algo example_builder_ext
   \<and> dump stub_lib (request_info r2) = dump stub_lib (request_info r1)
   \<and> extension_names (request_info r1) =
       [''basic_constraints'', ''extended_key_usage'', ''key_usage'',
        ''issuer_alt_name'', ''tls_feature'']"
proof -
  let ?kms = "stub_kms ''SIGN_VERIFY'' [''ECDSA_SHA_256'']"
  let ?b1 = "example_builder_ext\<lparr>u_kms_signature_algo := ''ECDSA_SHA_256''\<rparr>"
  from example_build_ext_first obtain r1 where
    first: "build_with_kms stub_lib ?kms example_builder_ext ''key-1'' = (Inr r1, ?b1)"
    by blast
  from example_build_ext_second obtain r2 b2 where
    second: "build_with_kms stub_lib ?kms ?b1 ''key-1'' = (Inr r2, b2)"
    by blast
  have pref: "u_kms_signature_algo ?b1 \<noteq> u_kms_signature_algo example_builder_ext"
    by (simp add: example_builder_ext_def example_builder_def)
  have names: "filter (\<lambda>n. getattr_special example_builder_ext n \<noteq> None)
             [''basic_constraints'', ''extended_key_usage'', ''key_usage'', ''subject_alt_name'']
           @ sort (map fst (u_other_extensions example_builder_ext))
         = [''basic_constraints'', ''extended_key_usage'', ''key_usage'',
            ''issuer_alt_name'', ''tls_feature'']"
    by (simp add: example_builder_ext_def example_builder_def getattr_special_def)
  from build_tbs_deterministic [OF first second] names
  have "dump stub_lib (request_info r2) = dump stub_lib (request_info r1)
      \<and> extension_names (request_info r1) =
       [''basic_constraints'', ''extended_key_usage'', ''key_usage'',
        ''issuer_alt_name'', ''tls_feature'']"
    by simp
  with first second pref show ?thesis by blast
qed

section \<open>What a build changes\<close>

text \<open>
  C9. A build that returns a request leaves the builder with \<^verbatim>\<open>_kms_signature_algo\<close>
  overwritten by the negotiated name of the remote algorithm: \<^verbatim>\<open>ECDSA_SHA_\<close>,
  \<^verbatim>\<open>RSASSA_PSS_SHA_\<close> or \<^verbatim>\<open>RSASSA_PKCS1_V1_5_SHA_\<close> (by the key type selected, and for an
  RSA key by whether the name stored before contains \<^verbatim>\<open>PSS\<close>) followed by the last three
  characters of \<^verbatim>\<open>_hash_algo\<close>. Every other field is as it was.
\<close>

theorem build_overwrites_kms_signature_algo:
  assumes "build_with_kms lib kms b arn = (Inr r, b')"
  shows "\<exists>metadata kms_algos kt.
           describe_key kms arn = Inr metadata
         \<and> SigningAlgorithms metadata = Some kms_algos
         \<and> select_key_type kms_algos = Some kt
         \<and> b' = b\<lparr>u_kms_signature_algo :=
                  (if kt = ''ecdsa'' then ''ECDSA_SHA_''
                   else if py_in_str ''PSS'' (u_kms_signature_algo b) then ''RSASSA_PSS_SHA_''
                   else ''RSASSA_PKCS1_V1_5_SHA_'') @ last3 (u_hash_algo b)\<rparr>
         \<and> u_subject b' = u_subject b
         \<and> u_kms_arn b' = u_kms_arn b
         \<and> u_subject_public_key b' = u_subject_public_key b
         \<and> u_hash_algo b' = u_hash_algo b
         \<and> u_basic_constraints b' = u_basic_constraints b
         \<and> u_subject_alt_name b' = u_subject_alt_name b
         \<and> u_key_usage b' = u_key_usage b
         \<and> u_extended_key_usage b' = u_extended_key_usage b
         \<and> u_other_extensions b' = u_other_extensions b"
proof -
  from build_with_kms_success [OF assms] obtain metadata kms_algos kt where
    d: "describe_key kms arn = Inr metadata"
    and a: "SigningAlgorithms metadata = Some kms_algos"
    and kt: "select_key_type kms_algos = Some kt"
    and n: "negotiate b kt = (Inr (Some (signature_algorithm r)), b')"
    by blast
  from negotiate_success [OF n select_key_type_cases [OF kt]]
  have b': "b' = b\<lparr>u_kms_signature_algo :=
                  (if kt = ''ecdsa'' then ''ECDSA_SHA_''
                   else if py_in_str ''PSS'' (u_kms_signature_algo b) then ''RSASSA_PSS_SHA_''
                   else ''RSASSA_PKCS1_V1_5_SHA_'') @ last3 (u_hash_algo b)\<rparr>"
    by (rule conjunct1)
  have frame: "u_subject b' = u_subject b
         \<and> u_kms_arn b' = u_kms_arn b
         \<and> u_subject_public_key b' = u_subject_public_key b
         \<and> u_hash_algo b' = u_hash_algo b
         \<and> u_basic_constraints b' = u_basic_constraints b
         \<and> u_subject_alt_name b' = u_subject_alt_name b
         \<and> u_key_usage b' = u_key_usage b
         \<and> u_extended_key_usage b' = u_extended_key_usage b
         \<and> u_other_extensions b' = u_other_extensions b"
    by (subst b', simp)+
  from d a kt b' frame show ?thesis by blast
qed

lemma example_build_ec:
  "\<exists>r. build_with_kms stub_lib (stub_kms ''SIGN_VERIFY'' [''ECDSA_SHA_256''])
          (example_builder\<lparr>u_hash_algo := ''sha512''\<rparr>) ''key-1''
        = (Inr r, example_builder\<lparr>u_hash_algo := ''sha512'',
                                   u_kms_signature_algo := ''ECDSA_SHA_512''\<rparr>)"
  by (simp add: build_eval_defs)

theorem build_overwrites_kms_signature_algo_witness:
  "\<exists>r b'. build_with_kms stub_lib (stub_kms ''SIGN_VERIFY'' [''ECDSA_SHA_256''])
             (example_builder\<lparr>u_hash_algo := ''sha512''\<rparr>) ''key-1'' = (Inr r, b')
         \<and> u_kms_signature_algo (example_builder\<lparr>u_hash_algo := ''sha512''\<rparr>)
             = ''RSASSA_PSS_SHA_256''
         \<and> u_kms_signature_algo b' = ''ECDSA_SHA_512''
         \<and> u_hash_algo b' = ''sha512''
         \<and> u_subject b' = u_subject example_builder
         \<and> u_other_extensions b' = u_other_extensions example_builder"
proof -
  let ?b = "example_builder\<lparr>u_hash_algo := ''sha512''\<rparr>"
  let ?kms = "stub_kms ''SIGN_VERIFY'' [''ECDSA_SHA_256'']"
  from example_build_ec obtain r b' where
    run: "build_with_kms stub_lib ?kms ?b ''key-1'' = (Inr r, b')"
    by blast
  from build_overwrites_kms_signature_algo [OF run] obtain metadata kms_algos kt where
    d: "describe_key ?kms ''key-1'' = Inr metadata"
    and a: "SigningAlgorithms metadata = Some kms_algos"
    and kt: "select_key_type kms_algos = Some kt"
    and b': "b' = ?b\<lparr>u_kms_signature_algo :=
                  (if kt = ''ecdsa'' then ''ECDSA_SHA_''
                   else if py_in_str ''PSS'' (u_kms_signature_algo ?b) then ''RSASSA_PSS_SHA_''
                   else ''RSASSA_PKCS1_V1_5_SHA_'') @ last3 (u_hash_algo ?b)\<rparr>"
    and frame: "u_hash_algo b' = u_hash_algo ?b" "u_subject b' = u_subject ?b"
               "u_other_extensions b' = u_other_extensions ?b"
    by blast
  from d a have "kms_algos = [''ECDSA_SHA_256'']"
    by (auto simp add: stub_kms_def)
  with kt have "kt = ''ecdsa''"
    by (simp add: select_key_type_def)
  with b' have 1: "u_kms_signature_algo b' = ''ECDSA_SHA_512''"
    by (simp add: last3_def)
  have 0: "u_kms_signature_algo ?b = ''RSASSA_PSS_SHA_256''"
    by (simp add: example_builder_def)
  from frame have 2: "u_hash_algo b' = ''sha512''" "u_subject b' = u_subject example_builder"
     "u_other_extensions b' = u_other_extensions example_builder"
    by simp_all
  from run 0 1 2 show ?thesis by blast
qed

section \<open>The negotiation of the signature algorithm\<close>

lemma negotiate_rsa_supported_hash:
  assumes "u_hash_algo b = ''sha256'' \<or> u_hash_algo b = ''sha512''"
  shows "negotiate b ''rsa'' =
     (if py_in_str ''PSS'' (u_kms_signature_algo b)
      then (Inr (Some (SignedDigestAlgorithm ''rsassa_pss''
                  \<lparr>hash_algorithm = u_hash_algo b,
                   mask_gen_algorithm = (''mgf1'', u_hash_algo b),
                   salt_length = (if u_hash_algo b = ''sha256'' then 32 else 64)\<rparr>)),
            b\<lparr>u_kms_signature_algo := ''RSASSA_PSS_SHA_'' @ last3 (u_hash_algo b)\<rparr>)
      else (Inr (Some (AlgorithmDict (u_hash_algo b @ ''_rsa''))),
            b\<lparr>u_kms_signature_algo := ''RSASSA_PKCS1_V1_5_SHA_'' @ last3 (u_hash_algo b)\<rparr>))"
  using assms
proof
  assume h: "u_hash_algo b = ''sha256''"
  show ?thesis
    unfolding negotiate_rsa_unfold h
    by (simp add: last3_def py_int_def is_digit_def digit_value_def
          kms_signature_algo_setter_def valid_algos_def)
next
  assume h: "u_hash_algo b = ''sha512''"
  show ?thesis
    unfolding negotiate_rsa_unfold h
    by (simp add: last3_def py_int_def is_digit_def digit_value_def
          kms_signature_algo_setter_def valid_algos_def)
qed

lemma negotiate_ecdsa_supported_hash:
  assumes "u_hash_algo b = ''sha256'' \<or> u_hash_algo b = ''sha512''"
  shows "negotiate b ''ecdsa'' =
     (Inr (Some (AlgorithmDict (u_hash_algo b @ ''_ecdsa''))),
      b\<lparr>u_kms_signature_algo := ''ECDSA_SHA_'' @ last3 (u_hash_algo b)\<rparr>)"
  using assms
proof
  assume h: "u_hash_algo b = ''sha256''"
  show ?thesis
    unfolding negotiate_ecdsa_unfold h
    by (simp add: last3_def kms_signature_algo_setter_def valid_algos_def)
next
  assume h: "u_hash_algo b = ''sha512''"
  show ?thesis
    unfolding negotiate_ecdsa_unfold h
    by (simp add: last3_def kms_signature_algo_setter_def valid_algos_def)
qed

lemma build_with_kms_negotiated:
  assumes run: "build_with_kms lib kms b arn = (Inr r, b')"
      and d: "describe_key kms arn = Inr metadata"
      and a: "SigningAlgorithms metadata = Some kms_algos"
      and kt: "select_key_type kms_algos = Some kt"
  shows "negotiate b kt = (Inr (Some (signature_algorithm r)), b')
       \<and> sign kms arn (u_kms_signature_algo b') (dump lib (request_info r)) = Inr (signature r)"
proof -
  from build_with_kms_success [OF run] obtain metadata' kms_algos' kt' where
    d': "describe_key kms arn = Inr metadata'"
    and a': "SigningAlgorithms metadata' = Some kms_algos'"
    and kt': "select_key_type kms_algos' = Some kt'"
    and n: "negotiate b kt' = (Inr (Some (signature_algorithm r)), b')"
    and s: "sign kms arn (u_kms_signature_algo b') (dump lib (request_info r))
             = Inr (signature r)"
    by blast
  from d d' have "metadata' = metadata" by simp
  with a a' have "kms_algos' = kms_algos" by simp
  with kt kt' have "kt' = kt" by simp
  with n s show ?thesis by simp
qed

text \<open>
  What the negotiation does for an RSA key on the two hashes for which it returns. For a key
  that reports \<^verbatim>\<open>RSASSA_PSS_SHA_256\<close> (the key type is then \<^verbatim>\<open>rsa\<close>) and a hash
  \<^verbatim>\<open>sha256\<close> or \<^verbatim>\<open>sha512\<close>: when the stored preference contains \<^verbatim>\<open>PSS\<close>, it yields
  the PSS parameters (the hash, MGF1 with the same hash, salt length 32 for \<^verbatim>\<open>sha256\<close>
  and 64 for \<^verbatim>\<open>sha512\<close>) and stores the remote name \<^verbatim>\<open>RSASSA_PSS_SHA_\<close> followed by
  the last three characters of the hash name; otherwise it yields
  \<^verbatim>\<open>{'algorithm': '<hash>_rsa'}\<close> and stores \<^verbatim>\<open>RSASSA_PKCS1_V1_5_SHA_\<close> followed by
  those characters. A build that returns a request carries that identifier and was signed
  under the stored name.
\<close>

theorem rsa_negotiation:
  assumes hash: "u_hash_algo b = ''sha256'' \<or> u_hash_algo b = ''sha512''"
      and d: "describe_key kms arn = Inr metadata"
      and a: "SigningAlgorithms metadata = Some kms_algos"
      and rsa: "''RSASSA_PSS_SHA_256'' \<in> set kms_algos"
  shows "select_key_type kms_algos = Some ''rsa''
       \<and> (py_in_str ''PSS'' (u_kms_signature_algo b) \<longrightarrow>
            negotiate b ''rsa'' =
              (Inr (Some (SignedDigestAlgorithm ''rsassa_pss''
                     \<lparr>hash_algorithm = u_hash_algo b,
                      mask_gen_algorithm = (''mgf1'', u_hash_algo b),
                      salt_length = (if u_hash_algo b = ''sha256'' then 32 else 64)\<rparr>)),
               b\<lparr>u_kms_signature_algo := ''RSASSA_PSS_SHA_'' @ last3 (u_hash_algo b)\<rparr>))
       \<and> (\<not> py_in_str ''PSS'' (u_kms_signature_algo b) \<longrightarrow>
            negotiate b ''rsa'' =
              (Inr (Some (AlgorithmDict (u_hash_algo b @ ''_rsa''))),
               b\<lparr>u_kms_signature_algo :=
                    ''RSASSA_PKCS1_V1_5_SHA_'' @ last3 (u_hash_algo b)\<rparr>))
       \<and> (\<forall>r b'. build_with_kms lib kms b arn = (Inr r, b') \<longrightarrow>
            negotiate b ''rsa'' = (Inr (Some (signature_algorithm r)), b')
          \<and> sign kms arn (u_kms_signature_algo b') (dump lib (request_info r))
              = Inr (signature r))"
proof (intro conjI allI impI)
  show kt: "select_key_type kms_algos = Some ''rsa''"
    using rsa by (rule select_key_type_rsa)
  show "negotiate b ''rsa'' =
              (Inr (Some (SignedDigestAlgorithm ''rsassa_pss''
                     \<lparr>hash_algorithm = u_hash_algo b,
                      mask_gen_algorithm = (''mgf1'', u_hash_algo b),
                      salt_length = (if u_hash_algo b = ''sha256'' then 32 else 64)\<rparr>)),
               b\<lparr>u_kms_signature_algo := ''RSASSA_PSS_SHA_'' @ last3 (u_hash_algo b)\<rparr>)"
    if "py_in_str ''PSS'' (u_kms_signature_algo b)"
    using that by (simp only: negotiate_rsa_supported_hash [OF hash] if_True)
  show "negotiate b ''rsa'' =
              (Inr (Some (AlgorithmDict (u_hash_algo b @ ''_rsa''))),
               b\<lparr>u_kms_signature_algo :=
                    ''RSASSA_PKCS1_V1_5_SHA_'' @ last3 (u_hash_algo b)\<rparr>)"
    if "\<not> py_in_str ''PSS'' (u_kms_signature_algo b)"
    using that by (simp only: negotiate_rsa_supported_hash [OF hash] if_False)
  fix r b' assume run: "build_with_kms lib kms b arn = (Inr r, b')"
  from build_with_kms_negotiated [OF run d a kt]
  show "negotiate b ''rsa'' = (Inr (Some (signature_algorithm r)), b')"
    and "sign kms arn (u_kms_signature_algo b') (dump lib (request_info r)) = Inr (signature r)"
    by simp_all
qed

text \<open>
  What the negotiation does for a key that reports \<^verbatim>\<open>ECDSA_SHA_256\<close> and not
  \<^verbatim>\<open>RSASSA_PSS_SHA_256\<close> (the key type is then \<^verbatim>\<open>ecdsa\<close>), on the hashes \<^verbatim>\<open>sha256\<close>
  and \<^verbatim>\<open>sha512\<close>: it yields \<^verbatim>\<open>{'algorithm': '<hash>_ecdsa'}\<close> and stores the remote
  name \<^verbatim>\<open>ECDSA_SHA_\<close> followed by the last three characters of the hash name, whether or
  not the key reports that name.
\<close>

theorem ecdsa_negotiation:
  assumes hash: "u_hash_algo b = ''sha256'' \<or> u_hash_algo b = ''sha512''"
      and d: "describe_key kms arn = Inr metadata"
      and a: "SigningAlgorithms metadata = Some kms_algos"
      and ec: "''ECDSA_SHA_256'' \<in> set kms_algos"
      and not_rsa: "''RSASSA_PSS_SHA_256'' \<notin> set kms_algos"
  shows "select_key_type kms_algos = Some ''ecdsa''
       \<and> negotiate b ''ecdsa'' =
           (Inr (Some (AlgorithmDict (u_hash_algo b @ ''_ecdsa''))),
            b\<lparr>u_kms_signature_algo := ''ECDSA_SHA_'' @ last3 (u_hash_algo b)\<rparr>)
       \<and> (u_hash_algo b = ''sha512'' \<longrightarrow>
            ''ECDSA_SHA_'' @ last3 (u_hash_algo b) = ''ECDSA_SHA_512'')
       \<and> (\<forall>r b'. build_with_kms lib kms b arn = (Inr r, b') \<longrightarrow>
            negotiate b ''ecdsa'' = (Inr (Some (signature_algorithm r)), b')
          \<and> sign kms arn (u_kms_signature_algo b') (dump lib (request_info r))
              = Inr (signature r))"
proof (intro conjI allI impI)
  show kt: "select_key_type kms_algos = Some ''ecdsa''"
    using not_rsa ec by (rule select_key_type_ecdsa)
  show "negotiate b ''ecdsa'' =
           (Inr (Some (AlgorithmDict (u_hash_algo b @ ''_ecdsa''))),
            b\<lparr>u_kms_signature_algo := ''ECDSA_SHA_'' @ last3 (u_hash_algo b)\<rparr>)"
    by (rule negotiate_ecdsa_supported_hash [OF hash])
  show "''ECDSA_SHA_'' @ last3 (u_hash_algo b) = ''ECDSA_SHA_512''"
    if "u_hash_algo b = ''sha512''"
    using that by (simp add: last3_def)
  fix r b' assume run: "build_with_kms lib kms b arn = (Inr r, b')"
  from build_with_kms_negotiated [OF run d a kt]
  show "negotiate b ''ecdsa'' = (Inr (Some (signature_algorithm r)), b')"
    and "sign kms arn (u_kms_signature_algo b') (dump lib (request_info r)) = Inr (signature r)"
    by simp_all
qed


theorem rsa_negotiation_example:
  "negotiate example_builder ''rsa'' =
     (Inr (Some (SignedDigestAlgorithm ''rsassa_pss''
            \<lparr>hash_algorithm = ''sha256'',
             mask_gen_algorithm = (''mgf1'', ''sha256''),
             salt_length = 32\<rparr>)),
      example_builder\<lparr>u_kms_signature_algo := ''RSASSA_PSS_SHA_256''\<rparr>)
   \<and> negotiate (example_builder\<lparr>u_hash_algo := ''sha512'',
                   u_kms_signature_algo := ''RSASSA_PKCS1_V1_5_SHA_256''\<rparr>) ''rsa'' =
     (Inr (Some (AlgorithmDict ''sha512_rsa'')),
      example_builder\<lparr>u_hash_algo := ''sha512'',
                       u_kms_signature_algo := ''RSASSA_PKCS1_V1_5_SHA_512''\<rparr>)
   \<and> (\<exists>r b'. build_with_kms stub_lib (stub_kms ''SIGN_VERIFY'' rsa_algos) example_builder
                ''key-1'' = (Inr r, b')
             \<and> signature_algorithm r =
                 SignedDigestAlgorithm ''rsassa_pss''
                   \<lparr>hash_algorithm = ''sha256'',
                    mask_gen_algorithm = (''mgf1'', ''sha256''),
                    salt_length = 32\<rparr>
             \<and> u_kms_signature_algo b' = ''RSASSA_PSS_SHA_256''
             \<and> sign (stub_kms ''SIGN_VERIFY'' rsa_algos) ''key-1'' ''RSASSA_PSS_SHA_256''
                  (dump stub_lib (request_info r)) = Inr (signature r))"
proof -
  let ?kms = "stub_kms ''SIGN_VERIFY'' rsa_algos"
  let ?b2 = "example_builder\<lparr>u_hash_algo := ''sha512'',
                             u_kms_signature_algo := ''RSASSA_PKCS1_V1_5_SHA_256''\<rparr>"
  have h1: "u_hash_algo example_builder = ''sha256'' \<or> u_hash_algo example_builder = ''sha512''"
    by (simp add: example_builder_def)
  have h2: "u_hash_algo ?b2 = ''sha256'' \<or> u_hash_algo ?b2 = ''sha512''"
    by simp
  have d: "describe_key ?kms ''key-1'' = Inr \<lparr>SigningAlgorithms = Some rsa_algos\<rparr>"
    by (simp add: stub_kms_def)
  have a: "SigningAlgorithms \<lparr>SigningAlgorithms = Some rsa_algos\<rparr> = Some rsa_algos"
    by simp
  have rsa: "''RSASSA_PSS_SHA_256'' \<in> set rsa_algos"
    by (simp add: rsa_algos_def)
  have pss: "py_in_str ''PSS'' (u_kms_signature_algo example_builder)"
    by (simp add: example_builder_def)
  have not_pss: "\<not> py_in_str ''PSS'' (u_kms_signature_algo ?b2)"
    by simp
  note t1 = rsa_negotiation [OF h1 d a rsa, where lib = stub_lib]
  note t2 = rsa_negotiation [OF h2 d a rsa, where lib = stub_lib]
  from t1 pss have n1: "negotiate example_builder ''rsa'' =
     (Inr (Some (SignedDigestAlgorithm ''rsassa_pss''
                     \<lparr>hash_algorithm = u_hash_algo example_builder,
                      mask_gen_algorithm = (''mgf1'', u_hash_algo example_builder),
                      salt_length = (if u_hash_algo example_builder = ''sha256'' then 32 else 64)\<rparr>)),
               example_builder\<lparr>u_kms_signature_algo :=
                 ''RSASSA_PSS_SHA_'' @ last3 (u_hash_algo example_builder)\<rparr>)"
    by (elim conjE) (rule mp)
  have hash: "u_hash_algo example_builder = ''sha256''"
    by (simp add: example_builder_def)
  have n1': "negotiate example_builder ''rsa'' =
     (Inr (Some (SignedDigestAlgorithm ''rsassa_pss''
            \<lparr>hash_algorithm = ''sha256'',
             mask_gen_algorithm = (''mgf1'', ''sha256''),
             salt_length = 32\<rparr>)),
      example_builder\<lparr>u_kms_signature_algo := ''RSASSA_PSS_SHA_256''\<rparr>)"
    unfolding n1 hash by (simp add: last3_def)
  from t2 not_pss have n2: "negotiate ?b2 ''rsa'' =
              (Inr (Some (AlgorithmDict (u_hash_algo ?b2 @ ''_rsa''))),
               ?b2\<lparr>u_kms_signature_algo :=
                    ''RSASSA_PKCS1_V1_5_SHA_'' @ last3 (u_hash_algo ?b2)\<rparr>)"
    by (elim conjE) (rule mp)
  have n2': "negotiate ?b2 ''rsa'' =
     (Inr (Some (AlgorithmDict ''sha512_rsa'')),
      example_builder\<lparr>u_hash_algo := ''sha512'',
                       u_kms_signature_algo := ''RSASSA_PKCS1_V1_5_SHA_512''\<rparr>)"
    unfolding n2 by (simp add: last3_def)
  have "\<exists>r b'. build_with_kms stub_lib ?kms example_builder ''key-1'' = (Inr r, b')"
    by (simp add: build_eval_defs)
  then obtain r b' where run: "build_with_kms stub_lib ?kms example_builder ''key-1'' = (Inr r, b')"
    by blast
  from t1 have "\<forall>r b'. build_with_kms stub_lib ?kms example_builder ''key-1'' = (Inr r, b') \<longrightarrow>
            negotiate example_builder ''rsa'' = (Inr (Some (signature_algorithm r)), b')
          \<and> sign ?kms ''key-1'' (u_kms_signature_algo b') (dump stub_lib (request_info r))
              = Inr (signature r)"
    by (elim conjE)
  with run have b: "negotiate example_builder ''rsa'' = (Inr (Some (signature_algorithm r)), b')"
    and s: "sign ?kms ''key-1'' (u_kms_signature_algo b') (dump stub_lib (request_info r))
              = Inr (signature r)"
    by blast+
  from b n1' have sa: "signature_algorithm r =
                 SignedDigestAlgorithm ''rsassa_pss''
                   \<lparr>hash_algorithm = ''sha256'',
                    mask_gen_algorithm = (''mgf1'', ''sha256''),
                    salt_length = 32\<rparr>"
    and b': "b' = example_builder\<lparr>u_kms_signature_algo := ''RSASSA_PSS_SHA_256''\<rparr>"
    by simp_all
  from b' have nm: "u_kms_signature_algo b' = ''RSASSA_PSS_SHA_256''" by simp
  from s nm have s': "sign ?kms ''key-1'' ''RSASSA_PSS_SHA_256''
                  (dump stub_lib (request_info r)) = Inr (signature r)"
    by simp
  from run sa nm s' have "\<exists>r b'. build_with_kms stub_lib ?kms example_builder
                ''key-1'' = (Inr r, b')
             \<and> signature_algorithm r =
                 SignedDigestAlgorithm ''rsassa_pss''
                   \<lparr>hash_algorithm = ''sha256'',
                    mask_gen_algorithm = (''mgf1'', ''sha256''),
                    salt_length = 32\<rparr>
             \<and> u_kms_signature_algo b' = ''RSASSA_PSS_SHA_256''
             \<and> sign ?kms ''key-1'' ''RSASSA_PSS_SHA_256''
                  (dump stub_lib (request_info r)) = Inr (signature r)"
    by blast
  with n1' n2' show ?thesis by (intro conjI)
qed

text \<open>
  C5. The claim asks, for an RSA key, for the PSS parameter set of the configured hash
  (salt length the hash's output length in bytes) under the remote name
  \<^verbatim>\<open>RSASSA_PSS_SHA_<width>\<close> when the preference names PSS, and for
  \<^verbatim>\<open>{'algorithm': '<hash>_rsa'}\<close> under \<^verbatim>\<open>RSASSA_PKCS1_V1_5_SHA_<width>\<close> otherwise.
  The code does so for \<^verbatim>\<open>sha256\<close> and \<^verbatim>\<open>sha512\<close> (\<open>rsa_negotiation\<close>), but not for
  \<^verbatim>\<open>sha1\<close>, which the setter of \<^verbatim>\<open>hash_algo\<close> accepts and its docstring names: the
  width is taken as the last three characters of the hash name, \<^verbatim>\<open>ha1\<close>, so with the
  default PSS preference \<^verbatim>\<open>int('ha1')\<close> raises ValueError, and with a PKCS1 preference the
  setter of \<^verbatim>\<open>kms_signature_algo\<close> rejects \<^verbatim>\<open>RSASSA_PKCS1_V1_5_SHA_ha1\<close>. No
  identifier is produced and the build raises, with the builder as it was.
\<close>

theorem rsa_negotiation_sha1_raises:
  "hash_algo_setter example_builder ''sha1'' = (Inr (), example_builder\<lparr>u_hash_algo := ''sha1''\<rparr>)
   \<and> select_key_type rsa_algos = Some ''rsa''
   \<and> py_in_str ''PSS'' (u_kms_signature_algo (example_builder\<lparr>u_hash_algo := ''sha1''\<rparr>))
   \<and> negotiate (example_builder\<lparr>u_hash_algo := ''sha1''\<rparr>) ''rsa''
       = (Inl ValueError, example_builder\<lparr>u_hash_algo := ''sha1''\<rparr>)
   \<and> build_with_kms stub_lib (stub_kms ''SIGN_VERIFY'' rsa_algos)
        (example_builder\<lparr>u_hash_algo := ''sha1''\<rparr>) ''key-1''
       = (Inl ValueError, example_builder\<lparr>u_hash_algo := ''sha1''\<rparr>)
   \<and> negotiate (example_builder\<lparr>u_hash_algo := ''sha1'',
                   u_kms_signature_algo := ''RSASSA_PKCS1_V1_5_SHA_256''\<rparr>) ''rsa''
       = (Inl ValueError, example_builder\<lparr>u_hash_algo := ''sha1'',
                            u_kms_signature_algo := ''RSASSA_PKCS1_V1_5_SHA_256''\<rparr>)"
  by (simp add: build_eval_defs hash_algo_setter_def)


theorem ecdsa_negotiation_example:
  "select_key_type [''ECDSA_SHA_256''] = Some ''ecdsa''
   \<and> negotiate example_builder ''ecdsa'' =
       (Inr (Some (AlgorithmDict ''sha256_ecdsa'')),
        example_builder\<lparr>u_kms_signature_algo := ''ECDSA_SHA_256''\<rparr>)
   \<and> (\<exists>r b'. build_with_kms stub_lib (stub_kms ''SIGN_VERIFY'' [''ECDSA_SHA_256''])
                example_builder ''key-1'' = (Inr r, b')
             \<and> signature_algorithm r = AlgorithmDict ''sha256_ecdsa''
             \<and> u_kms_signature_algo b' = ''ECDSA_SHA_256''
             \<and> sign (stub_kms ''SIGN_VERIFY'' [''ECDSA_SHA_256'']) ''key-1'' ''ECDSA_SHA_256''
                  (dump stub_lib (request_info r)) = Inr (signature r))"
proof -
  let ?kms = "stub_kms ''SIGN_VERIFY'' [''ECDSA_SHA_256'']"
  let ?b = "example_builder"
  have h: "u_hash_algo ?b = ''sha256'' \<or> u_hash_algo ?b = ''sha512''"
    by (simp add: example_builder_def)
  have d: "describe_key ?kms ''key-1'' = Inr \<lparr>SigningAlgorithms = Some [''ECDSA_SHA_256'']\<rparr>"
    by (simp add: stub_kms_def)
  have a: "SigningAlgorithms \<lparr>SigningAlgorithms = Some [''ECDSA_SHA_256'']\<rparr>
             = Some [''ECDSA_SHA_256'']"
    by simp
  have ec: "''ECDSA_SHA_256'' \<in> set [''ECDSA_SHA_256'']"
    by simp
  have not_rsa: "''RSASSA_PSS_SHA_256'' \<notin> set [''ECDSA_SHA_256'']"
    by simp
  note t = ecdsa_negotiation [OF h d a ec not_rsa, where lib = stub_lib]
  from t have kt: "select_key_type [''ECDSA_SHA_256''] = Some ''ecdsa''"
    by (elim conjE)
  from t have n: "negotiate ?b ''ecdsa'' =
           (Inr (Some (AlgorithmDict (u_hash_algo ?b @ ''_ecdsa''))),
            ?b\<lparr>u_kms_signature_algo := ''ECDSA_SHA_'' @ last3 (u_hash_algo ?b)\<rparr>)"
    by (elim conjE)
  have n': "negotiate ?b ''ecdsa'' =
       (Inr (Some (AlgorithmDict ''sha256_ecdsa'')),
        example_builder\<lparr>u_kms_signature_algo := ''ECDSA_SHA_256''\<rparr>)"
    unfolding n by (simp add: example_builder_def last3_def)
  have "\<exists>r b'. build_with_kms stub_lib ?kms ?b ''key-1'' = (Inr r, b')"
    by (simp add: build_eval_defs)
  then obtain r b' where run: "build_with_kms stub_lib ?kms ?b ''key-1'' = (Inr r, b')"
    by blast
  from t have "\<forall>r b'. build_with_kms stub_lib ?kms ?b ''key-1'' = (Inr r, b') \<longrightarrow>
            negotiate ?b ''ecdsa'' = (Inr (Some (signature_algorithm r)), b')
          \<and> sign ?kms ''key-1'' (u_kms_signature_algo b') (dump stub_lib (request_info r))
              = Inr (signature r)"
    by (elim conjE)
  with run have b: "negotiate ?b ''ecdsa'' = (Inr (Some (signature_algorithm r)), b')"
    and s: "sign ?kms ''key-1'' (u_kms_signature_algo b') (dump stub_lib (request_info r))
              = Inr (signature r)"
    by blast+
  from b n' have sa: "signature_algorithm r = AlgorithmDict ''sha256_ecdsa''"
    and b': "b' = example_builder\<lparr>u_kms_signature_algo := ''ECDSA_SHA_256''\<rparr>"
    by simp_all
  from b' have name: "u_kms_signature_algo b' = ''ECDSA_SHA_256''" by simp
  from s name have s': "sign ?kms ''key-1'' ''ECDSA_SHA_256''
                  (dump stub_lib (request_info r)) = Inr (signature r)"
    by simp
  from run sa name s' have "\<exists>r b'. build_with_kms stub_lib ?kms ?b ''key-1'' = (Inr r, b')
             \<and> signature_algorithm r = AlgorithmDict ''sha256_ecdsa''
             \<and> u_kms_signature_algo b' = ''ECDSA_SHA_256''
             \<and> sign ?kms ''key-1'' ''ECDSA_SHA_256''
                  (dump stub_lib (request_info r)) = Inr (signature r)"
    by blast
  with kt n' show ?thesis by (intro conjI)
qed

text \<open>
  C6. The claim asks, for a key that reports ECDSA names only, for
  \<^verbatim>\<open>{'algorithm': '<hash>_ecdsa'}\<close> under the remote name \<^verbatim>\<open>ECDSA_SHA_<width>\<close>, and
  for \<^verbatim>\<open>ECDSA_SHA_512\<close> with the hash \<^verbatim>\<open>sha512\<close>. The code does not do so for a key
  that reports \<^verbatim>\<open>ECDSA_SHA_512\<close> alone (a NIST P-521 key) with the hash \<^verbatim>\<open>sha512\<close>:
  the key type is selected by the name \<^verbatim>\<open>ECDSA_SHA_256\<close> only and there is no
  \<^verbatim>\<open>else\<close>, so the build raises UnboundLocalError. Nor does it for the hash \<^verbatim>\<open>sha1\<close>,
  which the setter of \<^verbatim>\<open>hash_algo\<close> accepts: the name built from the last three
  characters is \<^verbatim>\<open>ECDSA_SHA_ha1\<close>, which the setter of \<^verbatim>\<open>kms_signature_algo\<close> rejects
  with ValueError.
\<close>

theorem ecdsa_only_key_not_negotiated:
  "hash_algo_setter example_builder ''sha1'' = (Inr (), example_builder\<lparr>u_hash_algo := ''sha1''\<rparr>)
   \<and> negotiate (example_builder\<lparr>u_hash_algo := ''sha1''\<rparr>) ''ecdsa''
       = (Inl ValueError, example_builder\<lparr>u_hash_algo := ''sha1''\<rparr>)
   \<and> build_with_kms stub_lib (stub_kms ''SIGN_VERIFY'' [''ECDSA_SHA_256''])
        (example_builder\<lparr>u_hash_algo := ''sha1''\<rparr>) ''key-1''
       = (Inl ValueError, example_builder\<lparr>u_hash_algo := ''sha1''\<rparr>)
   \<and> build_with_kms stub_lib (stub_kms ''SIGN_VERIFY'' [''ECDSA_SHA_512''])
        (example_builder\<lparr>u_hash_algo := ''sha512''\<rparr>) ''key-1''
       = (Inl UnboundLocalError, example_builder\<lparr>u_hash_algo := ''sha512''\<rparr>)"
  by (simp add: build_eval_defs hash_algo_setter_def)

section \<open>The setter of \<^verbatim>\<open>ca\<close>\<close>

lemma build_extension_names:
  assumes run: "build_with_kms lib kms b arn = (Inr r, b')"
  shows "extension_names (request_info r) =
           filter (\<lambda>n. getattr_special b n \<noteq> None)
             [''basic_constraints'', ''extended_key_usage'', ''key_usage'', ''subject_alt_name'']
           @ sort (map fst (u_other_extensions b))"
proof -
  from build_with_kms_success [OF run] obtain exts where
    e: "extension_list b' = Inr exts" and r: "request_info r = request_info_of b' exts"
    by blast
  from build_with_kms_frame [OF run] obtain v where b': "b' = b\<lparr>u_kms_signature_algo := v\<rparr>"
    by blast
  have "extension_list b' = extension_list b"
    by (rule extension_list_cong) (simp_all add: b')
  with e have "extension_list b = Inr exts" by simp
  from extension_list_names [OF this] r show ?thesis
    by (simp only: extension_names_request_info_of sort_special_extensions)
qed

lemma not_in_filter: "\<not> P n \<Longrightarrow> n \<notin> set (filter P xs)"
  by simp

lemma not_in_append: "xs = ys @ zs \<Longrightarrow> n \<notin> set ys \<Longrightarrow> n \<notin> set zs \<Longrightarrow> n \<notin> set xs"
  by simp

lemma build_omits_unset_special:
  assumes run: "build_with_kms lib kms b arn = (Inr r, b')"
      and unset: "getattr_special b n = None"
      and other: "n \<notin> fst ` set (u_other_extensions b)"
  shows "n \<notin> set (extension_names (request_info r))"
proof -
  from other have 1: "n \<notin> set (sort (map fst (u_other_extensions b)))" by simp
  from unset have "\<not> (getattr_special b n \<noteq> None)" by simp
  then have 2: "n \<notin> set (filter (\<lambda>n. getattr_special b n \<noteq> None)
             [''basic_constraints'', ''extended_key_usage'', ''key_usage'', ''subject_alt_name''])"
    by (rule not_in_filter)
  from build_extension_names [OF run] 2 1 show ?thesis
    by (rule not_in_append)
qed

text \<open>
  C7. Setting \<^verbatim>\<open>ca\<close> to a true value stores basic constraints with \<^verbatim>\<open>ca = True\<close>, the key
  usage \<^verbatim>\<open>{key_cert_sign, crl_sign}\<close> and the extended key usage \<^verbatim>\<open>[ocsp_signing]\<close>;
  setting it to a false value stores \<^verbatim>\<open>ca = False\<close>, \<^verbatim>\<open>{digital_signature,
  key_encipherment}\<close> and \<^verbatim>\<open>[server_auth, client_auth]\<close>; \<^verbatim>\<open>ca\<close> then reads back the
  value set. Setting it to \<^verbatim>\<open>None\<close> clears the basic constraints and nothing else:
  \<^verbatim>\<open>ca\<close> reads \<^verbatim>\<open>None\<close>, and a request built from that builder has no
  \<^verbatim>\<open>basic_constraints\<close> extension (\<^verbatim>\<open>_other_extensions\<close> holding none under that name,
  as \<^verbatim>\<open>set_extension\<close> keeps it).
\<close>

theorem ca_setter_effect:
  "ca_setter b (Some True) =
     b\<lparr>u_basic_constraints := Some (BasicConstraints True None),
       u_key_usage := Some (KeyUsage {''key_cert_sign'', ''crl_sign''}),
       u_extended_key_usage := Some (ExtKeyUsageSyntax [''ocsp_signing''])\<rparr>
   \<and> ca (ca_setter b (Some True)) = Inr (Some True)
   \<and> ca_setter b (Some False) =
     b\<lparr>u_basic_constraints := Some (BasicConstraints False None),
       u_key_usage := Some (KeyUsage {''digital_signature'', ''key_encipherment''}),
       u_extended_key_usage := Some (ExtKeyUsageSyntax [''server_auth'', ''client_auth''])\<rparr>
   \<and> ca (ca_setter b (Some False)) = Inr (Some False)
   \<and> ca_setter b None = b\<lparr>u_basic_constraints := None\<rparr>
   \<and> ca (ca_setter b None) = Inr None
   \<and> u_key_usage (ca_setter b None) = u_key_usage b
   \<and> u_extended_key_usage (ca_setter b None) = u_extended_key_usage b
   \<and> (\<forall>lib kms arn r b'.
         ''basic_constraints'' \<notin> fst ` set (u_other_extensions b) \<longrightarrow>
         build_with_kms lib kms (ca_setter b None) arn = (Inr r, b') \<longrightarrow>
         ''basic_constraints'' \<notin> set (extension_names (request_info r)))"
proof (intro conjI allI impI)
  fix lib kms arn r b'
  assume other: "''basic_constraints'' \<notin> fst ` set (u_other_extensions b)"
    and run: "build_with_kms lib kms (ca_setter b None) arn = (Inr r, b')"
  have unset: "getattr_special (ca_setter b None) ''basic_constraints'' = None"
    by (simp add: getattr_special_def ca_setter_def)
  from other have "''basic_constraints'' \<notin> fst ` set (u_other_extensions (ca_setter b None))"
    by (simp add: ca_setter_def)
  from build_omits_unset_special [OF run unset this]
  show "''basic_constraints'' \<notin> set (extension_names (request_info r))" .
qed (simp_all add: ca_setter_def ca_def)

lemma example_build_no_ca:
  "\<exists>r b'. build_with_kms stub_lib (stub_kms ''SIGN_VERIFY'' rsa_algos)
            (ca_setter example_builder None) ''key-1'' = (Inr r, b')
         \<and> extension_names (request_info r) = [''extended_key_usage'', ''key_usage'']"
  by (simp add: build_eval_defs ca_setter_def)

theorem ca_setter_effect_witness:
  "''basic_constraints'' \<notin> fst ` set (u_other_extensions example_builder)
   \<and> (\<exists>r b'. build_with_kms stub_lib (stub_kms ''SIGN_VERIFY'' rsa_algos)
            (ca_setter example_builder None) ''key-1'' = (Inr r, b')
         \<and> extension_names (request_info r) = [''extended_key_usage'', ''key_usage'']
         \<and> ''basic_constraints'' \<notin> set (extension_names (request_info r)))
   \<and> ca (ca_setter example_builder None) = Inr None
   \<and> u_key_usage (ca_setter example_builder (Some True))
        = Some (KeyUsage {''key_cert_sign'', ''crl_sign''})
   \<and> u_extended_key_usage (ca_setter example_builder (Some True))
        = Some (ExtKeyUsageSyntax [''ocsp_signing''])"
proof -
  note t = ca_setter_effect [of example_builder]
  have other: "''basic_constraints'' \<notin> fst ` set (u_other_extensions example_builder)"
    by (simp add: example_builder_def)
  from example_build_no_ca obtain r b' where
    run: "build_with_kms stub_lib (stub_kms ''SIGN_VERIFY'' rsa_algos)
            (ca_setter example_builder None) ''key-1'' = (Inr r, b')"
    and names: "extension_names (request_info r) = [''extended_key_usage'', ''key_usage'']"
    by blast
  from t have "\<forall>lib kms arn r b'.
         ''basic_constraints'' \<notin> fst ` set (u_other_extensions example_builder) \<longrightarrow>
         build_with_kms lib kms (ca_setter example_builder None) arn = (Inr r, b') \<longrightarrow>
         ''basic_constraints'' \<notin> set (extension_names (request_info r))"
    by (elim conjE)
  from this [rule_format, OF other run]
  have absent: "''basic_constraints'' \<notin> set (extension_names (request_info r))" .
  from t have none: "ca (ca_setter example_builder None) = Inr None"
    by (elim conjE)
  from t have eq: "ca_setter example_builder (Some True) =
     example_builder\<lparr>u_basic_constraints := Some (BasicConstraints True None),
       u_key_usage := Some (KeyUsage {''key_cert_sign'', ''crl_sign''}),
       u_extended_key_usage := Some (ExtKeyUsageSyntax [''ocsp_signing''])\<rparr>"
    by (elim conjE)
  have ku: "u_key_usage (ca_setter example_builder (Some True))
        = Some (KeyUsage {''key_cert_sign'', ''crl_sign''})"
    by (subst eq) simp
  have eku: "u_extended_key_usage (ca_setter example_builder (Some True))
        = Some (ExtKeyUsageSyntax [''ocsp_signing''])"
    by (subst eq) simp
  from run names absent have "\<exists>r b'. build_with_kms stub_lib (stub_kms ''SIGN_VERIFY'' rsa_algos)
            (ca_setter example_builder None) ''key-1'' = (Inr r, b')
         \<and> extension_names (request_info r) = [''extended_key_usage'', ''key_usage'']
         \<and> ''basic_constraints'' \<notin> set (extension_names (request_info r))"
    by blast
  with other none ku eku show ?thesis by (intro conjI)
qed

section \<open>\<^verbatim>\<open>set_extension\<close>\<close>

lemma set_extension_raise_keeps_state:
  "set_extension lib b name0 v = (Inl e, b') \<Longrightarrow> b' = b"
  by (auto simp add: set_extension_def split: sum.splits if_splits option.splits)

lemma getattr_setattr_special:
  "n \<in> set special_extensions \<Longrightarrow> getattr_special (setattr_special b n v) n = v"
  by (auto simp add: special_extensions_def getattr_special_def setattr_special_def)

lemma getattr_setattr_special_other:
  "m \<noteq> n \<Longrightarrow> getattr_special (setattr_special b n v) m = getattr_special b m"
  by (auto simp add: getattr_special_def setattr_special_def)

lemma setattr_special_other_extensions:
  "u_other_extensions (setattr_special b n v) = u_other_extensions b"
  by (simp add: setattr_special_def)

lemma set_extension_other_extensions:
  assumes "set_extension lib b name0 v = (r, b')"
  shows "u_other_extensions b' = u_other_extensions b
       \<or> (\<exists>n. extn_id_native lib name0 = Inr n \<and> n \<notin> set special_extensions
              \<and> (u_other_extensions b' = AList.delete n (u_other_extensions b)
                 \<or> (\<exists>x. u_other_extensions b' = AList.update n x (u_other_extensions b))))"
  using assms
  by (auto simp add: set_extension_def setattr_special_other_extensions
        split: sum.splits if_splits option.splits)

lemma disjoint_subset: "A \<inter> B = {} \<Longrightarrow> C \<subseteq> B \<Longrightarrow> A \<inter> C = {}"
  by blast

lemma disjoint_insert: "A \<inter> B = {} \<Longrightarrow> n \<notin> A \<Longrightarrow> A \<inter> ({n} \<union> B) = {}"
  by blast

lemma set_extension_keeps_other_disjoint:
  assumes run: "set_extension lib b name0 v = (r, b')"
      and dis: "set special_extensions \<inter> fst ` set (u_other_extensions b) = {}"
    shows "set special_extensions \<inter> fst ` set (u_other_extensions b') = {}"
proof -
  from set_extension_other_extensions [OF run] show ?thesis
  proof (elim disjE exE conjE)
    assume "u_other_extensions b' = u_other_extensions b"
    with dis show ?thesis by simp
  next
    fix n assume n: "n \<notin> set special_extensions"
      and eq: "u_other_extensions b' = AList.delete n (u_other_extensions b)"
    have "fst ` set (AList.delete n (u_other_extensions b)) \<subseteq> fst ` set (u_other_extensions b)"
      by (rule dom_delete_subset)
    with dis show ?thesis unfolding eq by (rule disjoint_subset)
  next
    fix n x assume n: "n \<notin> set special_extensions"
      and eq: "u_other_extensions b' = AList.update n x (u_other_extensions b)"
    have "fst ` set (AList.update n x (u_other_extensions b))
            = {n} \<union> fst ` set (u_other_extensions b)"
      by (rule dom_update)
    with disjoint_insert [OF dis n] show ?thesis unfolding eq by simp
  qed
qed

text \<open>
  C8. For an extension identity the library can name: a value that is not an instance of
  the class the library expects for that name makes \<^verbatim>\<open>set_extension\<close> raise TypeError
  (the EncodingError of the specification), and whenever \<^verbatim>\<open>set_extension\<close> raises, the
  builder is as it was. A matching value, or \<^verbatim>\<open>None\<close>, for one of the four special names
  is stored in the field of that name, the other fields and \<^verbatim>\<open>_other_extensions\<close> staying
  as they were; a matching value for any other name is stored in \<^verbatim>\<open>_other_extensions\<close>
  under that name; and \<^verbatim>\<open>None\<close> for any other name deletes the name from
  \<^verbatim>\<open>_other_extensions\<close>, the other names keeping their values.
\<close>

theorem set_extension_effect:
  assumes id: "extn_id_native lib name0 = Inr n"
  shows "(\<forall>x. \<not> isinstance_spec lib n x \<longrightarrow>
            set_extension lib b name0 (Some x) = (Inl TypeError, b))
       \<and> (\<forall>v e b'. set_extension lib b name0 v = (Inl e, b') \<longrightarrow> b' = b)
       \<and> (\<forall>v. (\<forall>x. v = Some x \<longrightarrow> isinstance_spec lib n x) \<longrightarrow>
                n \<in> set special_extensions \<longrightarrow>
                set_extension lib b name0 v = (Inr (), setattr_special b n v)
              \<and> getattr_special (setattr_special b n v) n = v
              \<and> u_other_extensions (setattr_special b n v) = u_other_extensions b
              \<and> (\<forall>m. m \<noteq> n \<longrightarrow>
                    getattr_special (setattr_special b n v) m = getattr_special b m))
       \<and> (\<forall>x. isinstance_spec lib n x \<longrightarrow> n \<notin> set special_extensions \<longrightarrow>
                set_extension lib b name0 (Some x) =
                  (Inr (), b\<lparr>u_other_extensions := AList.update n x (u_other_extensions b)\<rparr>)
              \<and> map_of (AList.update n x (u_other_extensions b)) n = Some x
              \<and> (\<forall>m. m \<noteq> n \<longrightarrow> map_of (AList.update n x (u_other_extensions b)) m
                                     = map_of (u_other_extensions b) m))
       \<and> (n \<notin> set special_extensions \<longrightarrow>
                set_extension lib b name0 None =
                  (Inr (), b\<lparr>u_other_extensions := AList.delete n (u_other_extensions b)\<rparr>)
              \<and> n \<notin> fst ` set (AList.delete n (u_other_extensions b))
              \<and> map_of (AList.delete n (u_other_extensions b)) n = None
              \<and> (\<forall>m. m \<noteq> n \<longrightarrow> map_of (AList.delete n (u_other_extensions b)) m
                                     = map_of (u_other_extensions b) m))"
proof (intro conjI allI impI)
  fix x assume "\<not> isinstance_spec lib n x"
  then show "set_extension lib b name0 (Some x) = (Inl TypeError, b)"
    by (simp add: set_extension_def id)
next
  fix v e b' assume "set_extension lib b name0 v = (Inl e, b')"
  then show "b' = b" by (rule set_extension_raise_keeps_state)
next
  fix v assume ok: "\<forall>x. v = Some x \<longrightarrow> isinstance_spec lib n x"
    and sp: "n \<in> set special_extensions"
  from ok have "\<not> (case v of None \<Rightarrow> False | Some x \<Rightarrow> \<not> isinstance_spec lib n x)"
    by (cases v) simp_all
  with sp show "set_extension lib b name0 v = (Inr (), setattr_special b n v)"
    by (simp add: set_extension_def id)
  from sp show "getattr_special (setattr_special b n v) n = v"
    by (rule getattr_setattr_special)
  show "u_other_extensions (setattr_special b n v) = u_other_extensions b"
    by (rule setattr_special_other_extensions)
  show "getattr_special (setattr_special b n v) m = getattr_special b m" if "m \<noteq> n" for m
    using that by (rule getattr_setattr_special_other)
next
  fix x assume ok: "isinstance_spec lib n x" and nsp: "n \<notin> set special_extensions"
  then show "set_extension lib b name0 (Some x) =
                  (Inr (), b\<lparr>u_other_extensions := AList.update n x (u_other_extensions b)\<rparr>)"
    by (simp add: set_extension_def id)
  show "map_of (AList.update n x (u_other_extensions b)) n = Some x"
    by (simp add: update_conv')
  show "map_of (AList.update n x (u_other_extensions b)) m = map_of (u_other_extensions b) m"
    if "m \<noteq> n" for m
    using that by (simp add: update_conv')
next
  assume nsp: "n \<notin> set special_extensions"
  then show "set_extension lib b name0 None =
                  (Inr (), b\<lparr>u_other_extensions := AList.delete n (u_other_extensions b)\<rparr>)"
    by (simp add: set_extension_def id)
  show "n \<notin> fst ` set (AList.delete n (u_other_extensions b))"
    by (rule delete_notin_dom)
  show "map_of (AList.delete n (u_other_extensions b)) n = None"
    by (simp add: delete_conv')
  show "map_of (AList.delete n (u_other_extensions b)) m = map_of (u_other_extensions b) m"
    if "m \<noteq> n" for m
    using that by (simp add: delete_conv')
qed


theorem set_extension_effect_witness:
  "set_extension stub_lib example_builder ''key_usage'' (Some (GeneralNames []))
     = (Inl TypeError, example_builder)
   \<and> set_extension stub_lib example_builder ''key_usage'' (Some (KeyUsage {''crl_sign''}))
     = (Inr (), example_builder\<lparr>u_key_usage := Some (KeyUsage {''crl_sign''})\<rparr>)
   \<and> set_extension stub_lib example_builder ''tls_feature'' (Some (Asn1Value ''Features'' ''05''))
     = (Inr (), example_builder\<lparr>u_other_extensions :=
                  [(''tls_feature'', Asn1Value ''Features'' ''05'')]\<rparr>)
   \<and> set_extension stub_lib example_builder_ext ''tls_feature'' None
     = (Inr (), example_builder_ext\<lparr>u_other_extensions :=
                  [(''issuer_alt_name'', GeneralNames [GeneralName ''dns_name'' ''ca.example''])]\<rparr>)"
proof -
  have id_ku: "extn_id_native stub_lib ''key_usage'' = Inr ''key_usage''"
    by (simp add: stub_lib_def)
  have id_tls: "extn_id_native stub_lib ''tls_feature'' = Inr ''tls_feature''"
    by (simp add: stub_lib_def)
  have sp: "''key_usage'' \<in> set special_extensions"
    by (simp add: special_extensions_def)
  have nsp: "''tls_feature'' \<notin> set special_extensions"
    by (simp add: special_extensions_def)
  have bad: "\<not> isinstance_spec stub_lib ''key_usage'' (GeneralNames [])"
    by (simp add: stub_lib_def)
  have good: "\<forall>x. Some (KeyUsage {''crl_sign''}) = Some x \<longrightarrow>
                isinstance_spec stub_lib ''key_usage'' x"
    by (simp add: stub_lib_def)
  have good': "isinstance_spec stub_lib ''tls_feature'' (Asn1Value ''Features'' ''05'')"
    by (simp add: stub_lib_def special_extensions_def)
  note t1 = set_extension_effect [OF id_ku, of example_builder]
  note t2 = set_extension_effect [OF id_tls, of example_builder]
  note t3 = set_extension_effect [OF id_tls, of example_builder_ext]
  from t1 have "\<forall>x. \<not> isinstance_spec stub_lib ''key_usage'' x \<longrightarrow>
      set_extension stub_lib example_builder ''key_usage'' (Some x) = (Inl TypeError, example_builder)"
    by (elim conjE)
  from this [rule_format, OF bad]
  have 1: "set_extension stub_lib example_builder ''key_usage'' (Some (GeneralNames []))
     = (Inl TypeError, example_builder)" .
  from t1 have "\<forall>v. (\<forall>x. v = Some x \<longrightarrow> isinstance_spec stub_lib ''key_usage'' x) \<longrightarrow>
                ''key_usage'' \<in> set special_extensions \<longrightarrow>
                set_extension stub_lib example_builder ''key_usage'' v
                  = (Inr (), setattr_special example_builder ''key_usage'' v)
              \<and> getattr_special (setattr_special example_builder ''key_usage'' v) ''key_usage'' = v
              \<and> u_other_extensions (setattr_special example_builder ''key_usage'' v)
                  = u_other_extensions example_builder
              \<and> (\<forall>m. m \<noteq> ''key_usage'' \<longrightarrow>
                    getattr_special (setattr_special example_builder ''key_usage'' v) m
                      = getattr_special example_builder m)"
    by (elim conjE)
  from this [rule_format, OF good [rule_format] sp]
  have "set_extension stub_lib example_builder ''key_usage'' (Some (KeyUsage {''crl_sign''}))
          = (Inr (), setattr_special example_builder ''key_usage'' (Some (KeyUsage {''crl_sign''})))"
    by (rule conjunct1)
  then have 2: "set_extension stub_lib example_builder ''key_usage'' (Some (KeyUsage {''crl_sign''}))
     = (Inr (), example_builder\<lparr>u_key_usage := Some (KeyUsage {''crl_sign''})\<rparr>)"
    by (simp add: setattr_special_def)
  from t2 have "\<forall>x. isinstance_spec stub_lib ''tls_feature'' x \<longrightarrow>
                ''tls_feature'' \<notin> set special_extensions \<longrightarrow>
                set_extension stub_lib example_builder ''tls_feature'' (Some x) =
                  (Inr (), example_builder\<lparr>u_other_extensions :=
                      AList.update ''tls_feature'' x (u_other_extensions example_builder)\<rparr>)
              \<and> map_of (AList.update ''tls_feature'' x (u_other_extensions example_builder))
                   ''tls_feature'' = Some x
              \<and> (\<forall>m. m \<noteq> ''tls_feature'' \<longrightarrow>
                    map_of (AList.update ''tls_feature'' x (u_other_extensions example_builder)) m
                      = map_of (u_other_extensions example_builder) m)"
    by (elim conjE)
  from this [rule_format, OF good' nsp]
  have "set_extension stub_lib example_builder ''tls_feature'' (Some (Asn1Value ''Features'' ''05''))
          = (Inr (), example_builder\<lparr>u_other_extensions :=
               AList.update ''tls_feature'' (Asn1Value ''Features'' ''05'')
                 (u_other_extensions example_builder)\<rparr>)"
    by (rule conjunct1)
  then have 3: "set_extension stub_lib example_builder ''tls_feature''
        (Some (Asn1Value ''Features'' ''05''))
     = (Inr (), example_builder\<lparr>u_other_extensions :=
                  [(''tls_feature'', Asn1Value ''Features'' ''05'')]\<rparr>)"
    by (simp add: example_builder_def)
  from t3 have "''tls_feature'' \<notin> set special_extensions \<longrightarrow>
                set_extension stub_lib example_builder_ext ''tls_feature'' None =
                  (Inr (), example_builder_ext\<lparr>u_other_extensions :=
                      AList.delete ''tls_feature'' (u_other_extensions example_builder_ext)\<rparr>)
              \<and> ''tls_feature'' \<notin> fst ` set (AList.delete ''tls_feature''
                                                (u_other_extensions example_builder_ext))
              \<and> map_of (AList.delete ''tls_feature'' (u_other_extensions example_builder_ext))
                   ''tls_feature'' = None
              \<and> (\<forall>m. m \<noteq> ''tls_feature'' \<longrightarrow>
                    map_of (AList.delete ''tls_feature'' (u_other_extensions example_builder_ext)) m
                      = map_of (u_other_extensions example_builder_ext) m)"
    by (elim conjE)
  from this [rule_format, OF nsp]
  have "set_extension stub_lib example_builder_ext ''tls_feature'' None =
                  (Inr (), example_builder_ext\<lparr>u_other_extensions :=
                      AList.delete ''tls_feature'' (u_other_extensions example_builder_ext)\<rparr>)"
    by (rule conjunct1)
  then have 4: "set_extension stub_lib example_builder_ext ''tls_feature'' None
     = (Inr (), example_builder_ext\<lparr>u_other_extensions :=
                  [(''issuer_alt_name'', GeneralNames [GeneralName ''dns_name'' ''ca.example''])]\<rparr>)"
    by (simp add: example_builder_ext_def)
  from 1 2 3 4 show ?thesis by (intro conjI)
qed

section \<open>Subject alternative names\<close>

lemma append_general_names_ok:
  "append_general_names lib n vs gs = (None, gs') \<Longrightarrow>
   \<exists>ws. gs' = gs @ map (GeneralName n) ws
      \<and> list_all2 (\<lambda>v w. general_name_native lib n v = Inr w) vs ws"
proof (induction vs arbitrary: gs)
  case Nil
  then show ?case by simp
next
  case (Cons v vs)
  from Cons.prems obtain w where
    w: "general_name_native lib n v = Inr w"
    and rest: "append_general_names lib n vs (gs @ [GeneralName n w]) = (None, gs')"
    by (auto split: sum.splits)
  from Cons.IH [OF rest] obtain ws where
    gs': "gs' = (gs @ [GeneralName n w]) @ map (GeneralName n) ws"
    and ws: "list_all2 (\<lambda>v w. general_name_native lib n v = Inr w) vs ws"
    by blast
  from gs' have "gs' = gs @ map (GeneralName n) (w # ws)" by simp
  moreover from w ws have "list_all2 (\<lambda>v w. general_name_native lib n v = Inr w) (v # vs) (w # ws)"
    by simp
  ultimately show ?case by blast
qed

lemma general_names_of_shape:
  assumes "u_subject_alt_name b = None \<or> (\<exists>gs. u_subject_alt_name b = Some (GeneralNames gs))"
  shows "(case u_subject_alt_name b of None \<Rightarrow> Inr [] | Some v \<Rightarrow> general_names_of v)
           = Inr (san_list b)"
  using assms by (auto simp add: san_list_def general_names_of_def)

lemma get_subject_alt_san_list:
  assumes "u_subject_alt_name b = None \<or> (\<exists>gs. u_subject_alt_name b = Some (GeneralNames gs))"
  shows "get_subject_alt b m = Inr (map gn_native (filter (\<lambda>g. gn_name g = m) (san_list b)))"
  using assms by (auto simp add: get_subject_alt_def san_list_def general_names_of_def)

lemma set_subject_alt_success:
  assumes shape: "u_subject_alt_name b = None
                  \<or> (\<exists>gs. u_subject_alt_name b = Some (GeneralNames gs))"
      and run: "set_subject_alt lib b n vals = (Inr (), b')"
  shows "\<exists>ws. list_all2 (\<lambda>v w. general_name_native lib n v = Inr w)
                 (case vals of None \<Rightarrow> [] | Some vs \<Rightarrow> vs) ws
            \<and> san_list b' = filter (\<lambda>g. gn_name g \<noteq> n) (san_list b) @ map (GeneralName n) ws
            \<and> u_subject_alt_name b' =
                 (if filter (\<lambda>g. gn_name g \<noteq> n) (san_list b) @ map (GeneralName n) ws = []
                  then None
                  else Some (GeneralNames
                         (filter (\<lambda>g. gn_name g \<noteq> n) (san_list b) @ map (GeneralName n) ws)))
            \<and> u_other_extensions b' = u_other_extensions b"
proof -
  let ?vs = "case vals of None \<Rightarrow> [] | Some vs \<Rightarrow> vs"
  let ?F = "filter (\<lambda>g. gn_name g \<noteq> n) (san_list b)"
  have filtered: "(case u_subject_alt_name b of
              None \<Rightarrow> Inr []
            | Some v \<Rightarrow> map_sum id (filter (\<lambda>g. gn_name g \<noteq> n)) (general_names_of v))
          = Inr ?F"
    using shape by (auto simp add: san_list_def general_names_of_def)
  obtain err gs where loop: "append_general_names lib n ?vs ?F = (err, gs)"
    by (cases "append_general_names lib n ?vs ?F")
  from run have err: "err = None"
    unfolding set_subject_alt_def filtered using loop
    by (cases err) (simp_all split: if_splits)
  from run have b': "b' = b\<lparr>u_subject_alt_name :=
                           (if gs = [] then None else Some (GeneralNames gs))\<rparr>"
    unfolding set_subject_alt_def filtered using loop err
    by (auto split: if_splits)
  then have san: "san_list b' = gs"
    by (simp add: san_list_def)
  from b' have field: "u_subject_alt_name b' = (if gs = [] then None else Some (GeneralNames gs))"
    by simp
  from b' have other: "u_other_extensions b' = u_other_extensions b"
    by simp
  from loop err have "append_general_names lib n ?vs ?F = (None, gs)" by simp
  from append_general_names_ok [OF this] obtain ws where
    gs: "gs = ?F @ map (GeneralName n) ws"
    and ws: "list_all2 (\<lambda>v w. general_name_native lib n v = Inr w) ?vs ws"
    by blast
  from ws san field other show ?thesis
    unfolding gs by blast
qed

lemma filter_other_kind:
  "m \<noteq> n \<Longrightarrow>
   filter (\<lambda>g. gn_name g = m) (filter (\<lambda>g. gn_name g \<noteq> n) xs)
     = filter (\<lambda>g. gn_name g = m) xs"
  by (induction xs) auto

lemma set_subject_alt_frame:
  assumes shape: "u_subject_alt_name b = None
                  \<or> (\<exists>gs. u_subject_alt_name b = Some (GeneralNames gs))"
      and run: "set_subject_alt lib b n vals = (Inr (), b')"
  shows "(\<forall>m. m \<noteq> n \<longrightarrow> get_subject_alt b' m = get_subject_alt b m)
       \<and> filter (\<lambda>g. gn_name g \<noteq> n) (san_list b') = filter (\<lambda>g. gn_name g \<noteq> n) (san_list b)
       \<and> (\<exists>ws. list_all2 (\<lambda>v w. general_name_native lib n v = Inr w)
                 (case vals of None \<Rightarrow> [] | Some vs \<Rightarrow> vs) ws
              \<and> get_subject_alt b' n = Inr ws)
       \<and> (san_list b' = [] \<longrightarrow>
             u_subject_alt_name b' = None
           \<and> (\<forall>m. get_subject_alt b' m = Inr [])
           \<and> (\<forall>lib' kms arn r b''.
                 ''subject_alt_name'' \<notin> fst ` set (u_other_extensions b) \<longrightarrow>
                 build_with_kms lib' kms b' arn = (Inr r, b'') \<longrightarrow>
                 ''subject_alt_name'' \<notin> set (extension_names (request_info r))))"
proof -
  let ?vs = "case vals of None \<Rightarrow> [] | Some vs \<Rightarrow> vs"
  let ?F = "filter (\<lambda>g. gn_name g \<noteq> n) (san_list b)"
  from set_subject_alt_success [OF shape run] obtain ws where
    ws: "list_all2 (\<lambda>v w. general_name_native lib n v = Inr w) ?vs ws"
    and san: "san_list b' = ?F @ map (GeneralName n) ws"
    and field: "u_subject_alt_name b' =
                 (if ?F @ map (GeneralName n) ws = [] then None
                  else Some (GeneralNames (?F @ map (GeneralName n) ws)))"
    and others: "u_other_extensions b' = u_other_extensions b"
    by blast
  from field have shape': "u_subject_alt_name b' = None
                  \<or> (\<exists>gs. u_subject_alt_name b' = Some (GeneralNames gs))"
    by (cases "?F @ map (GeneralName n) ws = []") simp_all
  have new_n: "filter (\<lambda>g. gn_name g = n) (map (GeneralName n) ws) = map (GeneralName n) ws"
    by (induction ws) simp_all
  have new_other: "filter (\<lambda>g. gn_name g = m) (map (GeneralName n) ws) = []" if "m \<noteq> n" for m
    using that by (induction ws) auto
  have new_not: "filter (\<lambda>g. gn_name g \<noteq> n) (map (GeneralName n) ws) = []"
    by (induction ws) simp_all
  have old_other: "filter (\<lambda>g. gn_name g = m) ?F = filter (\<lambda>g. gn_name g = m) (san_list b)"
    if "m \<noteq> n" for m
    using that by (rule filter_other_kind)
  have 1: "get_subject_alt b' m = get_subject_alt b m" if "m \<noteq> n" for m
    unfolding get_subject_alt_san_list [OF shape] get_subject_alt_san_list [OF shape'] san
    by (simp add: new_other [OF that] old_other [OF that] del: filter_filter)
  have 2: "filter (\<lambda>g. gn_name g \<noteq> n) (san_list b') = ?F"
    unfolding san by (simp add: new_not del: filter_filter)
  have "get_subject_alt b' n = Inr ws"
    unfolding get_subject_alt_san_list [OF shape'] san
    by (simp add: new_n comp_def)
  with ws have 3: "\<exists>ws. list_all2 (\<lambda>v w. general_name_native lib n v = Inr w) ?vs ws
              \<and> get_subject_alt b' n = Inr ws"
    by blast
  have 4: "u_subject_alt_name b' = None
           \<and> (\<forall>m. get_subject_alt b' m = Inr [])
           \<and> (\<forall>lib' kms arn r b''.
                 ''subject_alt_name'' \<notin> fst ` set (u_other_extensions b) \<longrightarrow>
                 build_with_kms lib' kms b' arn = (Inr r, b'') \<longrightarrow>
                 ''subject_alt_name'' \<notin> set (extension_names (request_info r)))"
    if empty: "san_list b' = []"
  proof (intro conjI allI impI)
    from empty san have "?F @ map (GeneralName n) ws = []" by simp
    with field show none: "u_subject_alt_name b' = None" by simp
    show "get_subject_alt b' m = Inr []" for m
      unfolding get_subject_alt_san_list [OF shape'] empty by simp
    fix lib' kms arn r b''
    assume other: "''subject_alt_name'' \<notin> fst ` set (u_other_extensions b)"
      and build: "build_with_kms lib' kms b' arn = (Inr r, b'')"
    from none have unset: "getattr_special b' ''subject_alt_name'' = None"
      by (simp add: getattr_special_def)
    from other have "''subject_alt_name'' \<notin> fst ` set (u_other_extensions b')"
      unfolding others .
    from build_omits_unset_special [OF build unset this]
    show "''subject_alt_name'' \<notin> set (extension_names (request_info r))" .
  qed
  show ?thesis
  proof (intro conjI allI impI)
    fix m assume "m \<noteq> n" then show "get_subject_alt b' m = get_subject_alt b m" by (rule 1)
  next
    show "filter (\<lambda>g. gn_name g \<noteq> n) (san_list b') = ?F" by (rule 2)
  next
    show "\<exists>ws. list_all2 (\<lambda>v w. general_name_native lib n v = Inr w) ?vs ws
              \<and> get_subject_alt b' n = Inr ws" by (rule 3)
  next
    assume e: "san_list b' = []"
    from 4 [OF e] show "u_subject_alt_name b' = None" by (rule conjunct1)
    from 4 [OF e] show "get_subject_alt b' m = Inr []" for m by (elim conjE) (erule spec)
    fix lib' kms arn r b''
    assume "''subject_alt_name'' \<notin> fst ` set (u_other_extensions b)"
      and "build_with_kms lib' kms b' arn = (Inr r, b'')"
    with 4 [OF e] show "''subject_alt_name'' \<notin> set (extension_names (request_info r))"
      by (elim conjE) (erule allE impE | assumption)+
  qed
qed

lemma set_subject_alt_only_field:
  assumes run: "set_subject_alt lib b n vals = (r, b')"
  shows "\<exists>v. b' = b\<lparr>u_subject_alt_name := v\<rparr>"
proof -
  have same: "b = b\<lparr>u_subject_alt_name := u_subject_alt_name b\<rparr>" by simp
  let ?vs = "case vals of None \<Rightarrow> [] | Some vs \<Rightarrow> vs"
  show ?thesis
  proof (cases "case u_subject_alt_name b of
              None \<Rightarrow> Inr []
            | Some v \<Rightarrow> map_sum id (filter (\<lambda>g. gn_name g \<noteq> n)) (general_names_of v)")
    case (Inl e)
    with run have "b' = b" by (simp add: set_subject_alt_def)
    with same show ?thesis by blast
  next
    case (Inr fs)
    obtain err gs where loop: "append_general_names lib n ?vs fs = (err, gs)"
      by (cases "append_general_names lib n ?vs fs")
    from run Inr loop show ?thesis
      unfolding set_subject_alt_def
      by (cases err) (auto split: if_splits)
  qed
qed

lemma set_subject_alt_raise_first:
  assumes shape: "u_subject_alt_name b = None
                  \<or> (\<exists>gs. u_subject_alt_name b = Some (GeneralNames gs))"
      and bad: "general_name_native lib n v = Inl e"
  shows "set_subject_alt lib b n (Some (v # vs)) =
           (Inl e, b\<lparr>u_subject_alt_name :=
                      Some (GeneralNames (filter (\<lambda>g. gn_name g \<noteq> n) (san_list b)))\<rparr>)"
proof -
  have filtered: "(case u_subject_alt_name b of
              None \<Rightarrow> Inr []
            | Some v \<Rightarrow> map_sum id (filter (\<lambda>g. gn_name g \<noteq> n)) (general_names_of v))
          = Inr (filter (\<lambda>g. gn_name g \<noteq> n) (san_list b))"
    using shape by (auto simp add: san_list_def general_names_of_def)
  show ?thesis
    unfolding set_subject_alt_def filtered by (simp add: bad)
qed

text \<open>
  What a call of either setter that returns does, on a builder whose subject alternative
  name is unset or a \<^verbatim>\<open>GeneralNames\<close>. The setter of \<^verbatim>\<open>subject_alt_domains\<close> leaves
  every general name that is not a \<^verbatim>\<open>dns_name\<close> in place, in its order, so
  \<^verbatim>\<open>subject_alt_ips\<close> reads as before, and \<^verbatim>\<open>subject_alt_domains\<close> reads the names built
  from the values given; symmetrically for the setter of \<^verbatim>\<open>subject_alt_ips\<close>. No field
  but \<^verbatim>\<open>_subject_alt_name\<close> changes. When no general name is left, the field is
  \<^verbatim>\<open>None\<close>, both getters read the empty list, and a request built from that builder has
  no \<^verbatim>\<open>subject_alt_name\<close> extension (\<^verbatim>\<open>_other_extensions\<close> holding none under that
  name).
\<close>

theorem subject_alt_setters_frame:
  assumes shape: "u_subject_alt_name b = None
                  \<or> (\<exists>gs. u_subject_alt_name b = Some (GeneralNames gs))"
  shows "(\<forall>vals b'. subject_alt_domains_setter lib b vals = (Inr (), b') \<longrightarrow>
            subject_alt_ips b' = subject_alt_ips b
          \<and> filter (\<lambda>g. gn_name g \<noteq> ''dns_name'') (san_list b')
              = filter (\<lambda>g. gn_name g \<noteq> ''dns_name'') (san_list b)
          \<and> (\<exists>ws. list_all2 (\<lambda>v w. general_name_native lib ''dns_name'' v = Inr w)
                      (case vals of None \<Rightarrow> [] | Some vs \<Rightarrow> vs) ws
                 \<and> subject_alt_domains b' = Inr ws)
          \<and> (san_list b' = [] \<longrightarrow>
                u_subject_alt_name b' = None
              \<and> subject_alt_domains b' = Inr []
              \<and> subject_alt_ips b' = Inr []
              \<and> (\<forall>lib' kms arn r b''.
                    ''subject_alt_name'' \<notin> fst ` set (u_other_extensions b) \<longrightarrow>
                    build_with_kms lib' kms b' arn = (Inr r, b'') \<longrightarrow>
                    ''subject_alt_name'' \<notin> set (extension_names (request_info r))))
          \<and> (\<exists>v. b' = b\<lparr>u_subject_alt_name := v\<rparr>))
       \<and> (\<forall>vals b'. subject_alt_ips_setter lib b vals = (Inr (), b') \<longrightarrow>
            subject_alt_domains b' = subject_alt_domains b
          \<and> filter (\<lambda>g. gn_name g \<noteq> ''ip_address'') (san_list b')
              = filter (\<lambda>g. gn_name g \<noteq> ''ip_address'') (san_list b)
          \<and> (\<exists>ws. list_all2 (\<lambda>v w. general_name_native lib ''ip_address'' v = Inr w)
                      (case vals of None \<Rightarrow> [] | Some vs \<Rightarrow> vs) ws
                 \<and> subject_alt_ips b' = Inr ws)
          \<and> (san_list b' = [] \<longrightarrow>
                u_subject_alt_name b' = None
              \<and> subject_alt_domains b' = Inr []
              \<and> subject_alt_ips b' = Inr []
              \<and> (\<forall>lib' kms arn r b''.
                    ''subject_alt_name'' \<notin> fst ` set (u_other_extensions b) \<longrightarrow>
                    build_with_kms lib' kms b' arn = (Inr r, b'') \<longrightarrow>
                    ''subject_alt_name'' \<notin> set (extension_names (request_info r))))
          \<and> (\<exists>v. b' = b\<lparr>u_subject_alt_name := v\<rparr>))"
proof -
  have kinds: "''ip_address'' \<noteq> ''dns_name''" "''dns_name'' \<noteq> ''ip_address''"
    by simp_all
  have dns: "subject_alt_ips b' = subject_alt_ips b
          \<and> filter (\<lambda>g. gn_name g \<noteq> ''dns_name'') (san_list b')
              = filter (\<lambda>g. gn_name g \<noteq> ''dns_name'') (san_list b)
          \<and> (\<exists>ws. list_all2 (\<lambda>v w. general_name_native lib ''dns_name'' v = Inr w)
                      (case vals of None \<Rightarrow> [] | Some vs \<Rightarrow> vs) ws
                 \<and> subject_alt_domains b' = Inr ws)
          \<and> (san_list b' = [] \<longrightarrow>
                u_subject_alt_name b' = None
              \<and> subject_alt_domains b' = Inr []
              \<and> subject_alt_ips b' = Inr []
              \<and> (\<forall>lib' kms arn r b''.
                    ''subject_alt_name'' \<notin> fst ` set (u_other_extensions b) \<longrightarrow>
                    build_with_kms lib' kms b' arn = (Inr r, b'') \<longrightarrow>
                    ''subject_alt_name'' \<notin> set (extension_names (request_info r))))
          \<and> (\<exists>v. b' = b\<lparr>u_subject_alt_name := v\<rparr>)"
    if run: "subject_alt_domains_setter lib b vals = (Inr (), b')" for vals b'
  proof -
    from run have run': "set_subject_alt lib b ''dns_name'' vals = (Inr (), b')"
      by (simp only: subject_alt_domains_setter_def)
    note f = set_subject_alt_frame [OF shape run']
    from f have o: "\<forall>m. m \<noteq> ''dns_name'' \<longrightarrow> get_subject_alt b' m = get_subject_alt b m"
      by (elim conjE)
    from o [rule_format, OF kinds(1)] have 1: "subject_alt_ips b' = subject_alt_ips b"
      by (simp only: subject_alt_ips_def)
    from f have 2: "filter (\<lambda>g. gn_name g \<noteq> ''dns_name'') (san_list b')
              = filter (\<lambda>g. gn_name g \<noteq> ''dns_name'') (san_list b)"
      by (elim conjE)
    from f have 3: "\<exists>ws. list_all2 (\<lambda>v w. general_name_native lib ''dns_name'' v = Inr w)
                      (case vals of None \<Rightarrow> [] | Some vs \<Rightarrow> vs) ws
                 \<and> subject_alt_domains b' = Inr ws"
      unfolding subject_alt_domains_def by (elim conjE)
    from f have e: "san_list b' = [] \<longrightarrow>
             u_subject_alt_name b' = None
           \<and> (\<forall>m. get_subject_alt b' m = Inr [])
           \<and> (\<forall>lib' kms arn r b''.
                 ''subject_alt_name'' \<notin> fst ` set (u_other_extensions b) \<longrightarrow>
                 build_with_kms lib' kms b' arn = (Inr r, b'') \<longrightarrow>
                 ''subject_alt_name'' \<notin> set (extension_names (request_info r)))"
      by (elim conjE)
    have 4: "san_list b' = [] \<longrightarrow>
                u_subject_alt_name b' = None
              \<and> subject_alt_domains b' = Inr []
              \<and> subject_alt_ips b' = Inr []
              \<and> (\<forall>lib' kms arn r b''.
                    ''subject_alt_name'' \<notin> fst ` set (u_other_extensions b) \<longrightarrow>
                    build_with_kms lib' kms b' arn = (Inr r, b'') \<longrightarrow>
                    ''subject_alt_name'' \<notin> set (extension_names (request_info r)))"
    proof
      assume "san_list b' = []"
      with e have n: "u_subject_alt_name b' = None"
        and g: "\<forall>m. get_subject_alt b' m = Inr []"
        and x: "\<forall>lib' kms arn r b''.
                 ''subject_alt_name'' \<notin> fst ` set (u_other_extensions b) \<longrightarrow>
                 build_with_kms lib' kms b' arn = (Inr r, b'') \<longrightarrow>
                 ''subject_alt_name'' \<notin> set (extension_names (request_info r))"
        by simp_all
      from g have "subject_alt_domains b' = Inr []" "subject_alt_ips b' = Inr []"
        by (simp_all only: subject_alt_domains_def subject_alt_ips_def)
      with n x show "u_subject_alt_name b' = None
              \<and> subject_alt_domains b' = Inr []
              \<and> subject_alt_ips b' = Inr []
              \<and> (\<forall>lib' kms arn r b''.
                    ''subject_alt_name'' \<notin> fst ` set (u_other_extensions b) \<longrightarrow>
                    build_with_kms lib' kms b' arn = (Inr r, b'') \<longrightarrow>
                    ''subject_alt_name'' \<notin> set (extension_names (request_info r)))"
        by (intro conjI)
    qed
    from set_subject_alt_only_field [OF run']
    have 5: "\<exists>v. b' = b\<lparr>u_subject_alt_name := v\<rparr>" .
    from 1 2 3 4 5 show ?thesis by (intro conjI)
  qed
  have ips: "subject_alt_domains b' = subject_alt_domains b
          \<and> filter (\<lambda>g. gn_name g \<noteq> ''ip_address'') (san_list b')
              = filter (\<lambda>g. gn_name g \<noteq> ''ip_address'') (san_list b)
          \<and> (\<exists>ws. list_all2 (\<lambda>v w. general_name_native lib ''ip_address'' v = Inr w)
                      (case vals of None \<Rightarrow> [] | Some vs \<Rightarrow> vs) ws
                 \<and> subject_alt_ips b' = Inr ws)
          \<and> (san_list b' = [] \<longrightarrow>
                u_subject_alt_name b' = None
              \<and> subject_alt_domains b' = Inr []
              \<and> subject_alt_ips b' = Inr []
              \<and> (\<forall>lib' kms arn r b''.
                    ''subject_alt_name'' \<notin> fst ` set (u_other_extensions b) \<longrightarrow>
                    build_with_kms lib' kms b' arn = (Inr r, b'') \<longrightarrow>
                    ''subject_alt_name'' \<notin> set (extension_names (request_info r))))
          \<and> (\<exists>v. b' = b\<lparr>u_subject_alt_name := v\<rparr>)"
    if run: "subject_alt_ips_setter lib b vals = (Inr (), b')" for vals b'
  proof -
    from run have run': "set_subject_alt lib b ''ip_address'' vals = (Inr (), b')"
      by (simp only: subject_alt_ips_setter_def)
    note f = set_subject_alt_frame [OF shape run']
    from f have o: "\<forall>m. m \<noteq> ''ip_address'' \<longrightarrow> get_subject_alt b' m = get_subject_alt b m"
      by (elim conjE)
    from o [rule_format, OF kinds(2)] have 1: "subject_alt_domains b' = subject_alt_domains b"
      by (simp only: subject_alt_domains_def)
    from f have 2: "filter (\<lambda>g. gn_name g \<noteq> ''ip_address'') (san_list b')
              = filter (\<lambda>g. gn_name g \<noteq> ''ip_address'') (san_list b)"
      by (elim conjE)
    from f have 3: "\<exists>ws. list_all2 (\<lambda>v w. general_name_native lib ''ip_address'' v = Inr w)
                      (case vals of None \<Rightarrow> [] | Some vs \<Rightarrow> vs) ws
                 \<and> subject_alt_ips b' = Inr ws"
      unfolding subject_alt_ips_def by (elim conjE)
    from f have e: "san_list b' = [] \<longrightarrow>
             u_subject_alt_name b' = None
           \<and> (\<forall>m. get_subject_alt b' m = Inr [])
           \<and> (\<forall>lib' kms arn r b''.
                 ''subject_alt_name'' \<notin> fst ` set (u_other_extensions b) \<longrightarrow>
                 build_with_kms lib' kms b' arn = (Inr r, b'') \<longrightarrow>
                 ''subject_alt_name'' \<notin> set (extension_names (request_info r)))"
      by (elim conjE)
    have 4: "san_list b' = [] \<longrightarrow>
                u_subject_alt_name b' = None
              \<and> subject_alt_domains b' = Inr []
              \<and> subject_alt_ips b' = Inr []
              \<and> (\<forall>lib' kms arn r b''.
                    ''subject_alt_name'' \<notin> fst ` set (u_other_extensions b) \<longrightarrow>
                    build_with_kms lib' kms b' arn = (Inr r, b'') \<longrightarrow>
                    ''subject_alt_name'' \<notin> set (extension_names (request_info r)))"
    proof
      assume "san_list b' = []"
      with e have n: "u_subject_alt_name b' = None"
        and g: "\<forall>m. get_subject_alt b' m = Inr []"
        and x: "\<forall>lib' kms arn r b''.
                 ''subject_alt_name'' \<notin> fst ` set (u_other_extensions b) \<longrightarrow>
                 build_with_kms lib' kms b' arn = (Inr r, b'') \<longrightarrow>
                 ''subject_alt_name'' \<notin> set (extension_names (request_info r))"
        by simp_all
      from g have "subject_alt_domains b' = Inr []" "subject_alt_ips b' = Inr []"
        by (simp_all only: subject_alt_domains_def subject_alt_ips_def)
      with n x show "u_subject_alt_name b' = None
              \<and> subject_alt_domains b' = Inr []
              \<and> subject_alt_ips b' = Inr []
              \<and> (\<forall>lib' kms arn r b''.
                    ''subject_alt_name'' \<notin> fst ` set (u_other_extensions b) \<longrightarrow>
                    build_with_kms lib' kms b' arn = (Inr r, b'') \<longrightarrow>
                    ''subject_alt_name'' \<notin> set (extension_names (request_info r)))"
        by (intro conjI)
    qed
    from set_subject_alt_only_field [OF run']
    have 5: "\<exists>v. b' = b\<lparr>u_subject_alt_name := v\<rparr>" .
    from 1 2 3 4 5 show ?thesis by (intro conjI)
  qed
  show ?thesis
  proof (intro conjI allI impI)
  qed (use dns ips in \<open>blast+\<close>)
qed


lemma example_san_runs:
  "subject_alt_domains_setter stub_lib example_builder_san (Some [''b.example''])
     = (Inr (), example_builder\<lparr>u_subject_alt_name :=
          Some (GeneralNames [GeneralName ''ip_address'' ''10.0.0.1'',
                              GeneralName ''dns_name'' ''b.example''])\<rparr>)"
  "subject_alt_ips_setter stub_lib example_builder_san None
     = (Inr (), example_builder\<lparr>u_subject_alt_name :=
          Some (GeneralNames [GeneralName ''dns_name'' ''a.example''])\<rparr>)"
  "subject_alt_domains_setter stub_lib
     (example_builder\<lparr>u_subject_alt_name :=
        Some (GeneralNames [GeneralName ''dns_name'' ''a.example''])\<rparr>) (Some [])
     = (Inr (), example_builder)"
  by (simp_all add: subject_alt_domains_setter_def subject_alt_ips_setter_def
        set_subject_alt_def general_names_of_def example_builder_san_def example_builder_def
        stub_lib_def)

lemma example_build_plain:
  "\<exists>r b'. build_with_kms stub_lib (stub_kms ''SIGN_VERIFY'' rsa_algos) example_builder ''key-1''
           = (Inr r, b')"
  by (simp add: build_eval_defs)

theorem subject_alt_setters_frame_example:
  "(\<exists>b'. subject_alt_domains_setter stub_lib example_builder_san (Some [''b.example''])
            = (Inr (), b')
        \<and> subject_alt_ips example_builder_san = Inr [''10.0.0.1'']
        \<and> subject_alt_ips b' = Inr [''10.0.0.1'']
        \<and> subject_alt_domains b' = Inr [''b.example''])
   \<and> (\<exists>b'. subject_alt_ips_setter stub_lib example_builder_san None = (Inr (), b')
        \<and> subject_alt_domains example_builder_san = Inr [''a.example'']
        \<and> subject_alt_domains b' = Inr [''a.example'']
        \<and> subject_alt_ips b' = Inr [])
   \<and> (\<exists>b' r b''. subject_alt_domains_setter stub_lib
            (example_builder\<lparr>u_subject_alt_name :=
               Some (GeneralNames [GeneralName ''dns_name'' ''a.example''])\<rparr>) (Some [])
            = (Inr (), b')
        \<and> u_subject_alt_name b' = None
        \<and> subject_alt_domains b' = Inr []
        \<and> subject_alt_ips b' = Inr []
        \<and> build_with_kms stub_lib (stub_kms ''SIGN_VERIFY'' rsa_algos) b' ''key-1'' = (Inr r, b'')
        \<and> ''subject_alt_name'' \<notin> set (extension_names (request_info r)))"
proof -
  let ?b1 = "example_builder\<lparr>u_subject_alt_name :=
          Some (GeneralNames [GeneralName ''ip_address'' ''10.0.0.1'',
                              GeneralName ''dns_name'' ''b.example''])\<rparr>"
  let ?b2 = "example_builder\<lparr>u_subject_alt_name :=
          Some (GeneralNames [GeneralName ''dns_name'' ''a.example''])\<rparr>"
  have shape: "u_subject_alt_name example_builder_san = None
        \<or> (\<exists>gs. u_subject_alt_name example_builder_san = Some (GeneralNames gs))"
    by (simp add: example_builder_san_def)
  have shape2: "u_subject_alt_name ?b2 = None
        \<or> (\<exists>gs. u_subject_alt_name ?b2 = Some (GeneralNames gs))"
    by simp
  note t = subject_alt_setters_frame [OF shape, of stub_lib]
  note t2 = subject_alt_setters_frame [OF shape2, of stub_lib]
  have ips0: "subject_alt_ips example_builder_san = Inr [''10.0.0.1'']"
    by (simp add: subject_alt_ips_def get_subject_alt_def general_names_of_def
          example_builder_san_def)
  have dns0: "subject_alt_domains example_builder_san = Inr [''a.example'']"
    by (simp add: subject_alt_domains_def get_subject_alt_def general_names_of_def
          example_builder_san_def)
  from t [THEN conjunct1, rule_format, OF example_san_runs(1)]
  have "subject_alt_ips ?b1 = subject_alt_ips example_builder_san"
    by (rule conjunct1)
  with ips0
  have a1: "subject_alt_ips ?b1 = Inr [''10.0.0.1'']" by simp
  have a2: "subject_alt_domains ?b1 = Inr [''b.example'']"
    by (simp add: subject_alt_domains_def get_subject_alt_def general_names_of_def)
  from example_san_runs(1) ips0 a1 a2
  have A: "\<exists>b'. subject_alt_domains_setter stub_lib example_builder_san (Some [''b.example''])
            = (Inr (), b')
        \<and> subject_alt_ips example_builder_san = Inr [''10.0.0.1'']
        \<and> subject_alt_ips b' = Inr [''10.0.0.1'']
        \<and> subject_alt_domains b' = Inr [''b.example'']"
    by blast
  from t [THEN conjunct2, rule_format, OF example_san_runs(2)]
  have "subject_alt_domains ?b2 = subject_alt_domains example_builder_san"
    by (rule conjunct1)
  with dns0
  have b1: "subject_alt_domains ?b2 = Inr [''a.example'']" by simp
  have b2: "subject_alt_ips ?b2 = Inr []"
    by (simp add: subject_alt_ips_def get_subject_alt_def general_names_of_def)
  from example_san_runs(2) dns0 b1 b2
  have B: "\<exists>b'. subject_alt_ips_setter stub_lib example_builder_san None = (Inr (), b')
        \<and> subject_alt_domains example_builder_san = Inr [''a.example'']
        \<and> subject_alt_domains b' = Inr [''a.example'']
        \<and> subject_alt_ips b' = Inr []"
    by blast
  have empty: "san_list example_builder = []"
    by (simp add: san_list_def example_builder_def)
  have other: "''subject_alt_name'' \<notin> fst ` set (u_other_extensions ?b2)"
    by (simp add: example_builder_def)
  from example_build_plain obtain r b'' where
    run: "build_with_kms stub_lib (stub_kms ''SIGN_VERIFY'' rsa_algos) example_builder ''key-1''
           = (Inr r, b'')"
    by blast
  from t2 [THEN conjunct1, rule_format, OF example_san_runs(3)]
  have "san_list example_builder = [] \<longrightarrow>
                u_subject_alt_name example_builder = None
              \<and> subject_alt_domains example_builder = Inr []
              \<and> subject_alt_ips example_builder = Inr []
              \<and> (\<forall>lib' kms arn r b''.
                    ''subject_alt_name'' \<notin> fst ` set (u_other_extensions ?b2) \<longrightarrow>
                    build_with_kms lib' kms example_builder arn = (Inr r, b'') \<longrightarrow>
                    ''subject_alt_name'' \<notin> set (extension_names (request_info r)))"
    by (elim conjE)
  note c = this [THEN mp, OF empty]
  note c1 = c [THEN conjunct1]
  note c2 = c [THEN conjunct2, THEN conjunct1]
  note c3 = c [THEN conjunct2, THEN conjunct2, THEN conjunct1]
  note c4 = c [THEN conjunct2, THEN conjunct2, THEN conjunct2]
  from c4 [rule_format, OF other run]
  have c5: "''subject_alt_name'' \<notin> set (extension_names (request_info r))" .
  from example_san_runs(3) c1 c2 c3 run c5
  have C: "\<exists>b' r b''. subject_alt_domains_setter stub_lib ?b2 (Some []) = (Inr (), b')
        \<and> u_subject_alt_name b' = None
        \<and> subject_alt_domains b' = Inr []
        \<and> subject_alt_ips b' = Inr []
        \<and> build_with_kms stub_lib (stub_kms ''SIGN_VERIFY'' rsa_algos) b' ''key-1'' = (Inr r, b'')
        \<and> ''subject_alt_name'' \<notin> set (extension_names (request_info r))"
    by blast
  from A B C show ?thesis by (intro conjI)
qed

text \<open>
  C10. The claim asks that each setter replace the general names of its own kind only, and
  that whenever no general name is left the subject alternative name be removed: both
  getters read the empty list and a built request has no such extension. Calls that return
  do so (\<open>subject_alt_setters_frame\<close>). A call that raises does not: \<^verbatim>\<open>_set_subject_alt\<close>
  has by then stored the filtered \<^verbatim>\<open>GeneralNames\<close>, and the exception of
  \<^verbatim>\<open>x509.GeneralName\<close> skips the final reset to \<^verbatim>\<open>None\<close>. On a builder holding one IP
  address, assigning \<^verbatim>\<open>subject_alt_ips = ['not-an-ip']\<close> raises ValueError and leaves an
  empty \<^verbatim>\<open>GeneralNames\<close>: the address is gone, both getters read the empty list, and the
  next build asks for a \<^verbatim>\<open>subject_alt_name\<close> extension with no names.
\<close>

theorem subject_alt_ips_setter_raise_leaves_empty_san:
  "subject_alt_ips_setter rejecting_lib example_builder_ip (Some [''not-an-ip''])
     = (Inl ValueError, example_builder_ip\<lparr>u_subject_alt_name := Some (GeneralNames [])\<rparr>)
   \<and> subject_alt_ips (example_builder_ip\<lparr>u_subject_alt_name := Some (GeneralNames [])\<rparr>)
       = Inr []
   \<and> subject_alt_domains (example_builder_ip\<lparr>u_subject_alt_name := Some (GeneralNames [])\<rparr>)
       = Inr []
   \<and> (\<exists>r b'. build_with_kms rejecting_lib (stub_kms ''SIGN_VERIFY'' rsa_algos)
                (example_builder_ip\<lparr>u_subject_alt_name := Some (GeneralNames [])\<rparr>) ''key-1''
              = (Inr r, b')
            \<and> extension_names (request_info r) =
                [''basic_constraints'', ''extended_key_usage'', ''key_usage'',
                 ''subject_alt_name'']
            \<and> attributes (request_info r) =
                [Attribute ''extension_request''
                  [[\<lparr>extn_id = ''basic_constraints'', critical = False,
                      extn_value = BasicConstraints False None\<rparr>,
                    \<lparr>extn_id = ''extended_key_usage'', critical = False,
                      extn_value = ExtKeyUsageSyntax [''server_auth'', ''client_auth'']\<rparr>,
                    \<lparr>extn_id = ''key_usage'', critical = True,
                      extn_value = KeyUsage {''digital_signature'', ''key_encipherment''}\<rparr>,
                    \<lparr>extn_id = ''subject_alt_name'', critical = False,
                      extn_value = GeneralNames []\<rparr>]]])"
proof (intro conjI)
  show "subject_alt_ips_setter rejecting_lib example_builder_ip (Some [''not-an-ip''])
     = (Inl ValueError, example_builder_ip\<lparr>u_subject_alt_name := Some (GeneralNames [])\<rparr>)"
    by (simp add: subject_alt_ips_setter_def set_subject_alt_def general_names_of_def
          rejecting_lib_def example_builder_ip_def)
  show "subject_alt_ips (example_builder_ip\<lparr>u_subject_alt_name := Some (GeneralNames [])\<rparr>)
       = Inr []"
    by (simp add: subject_alt_ips_def get_subject_alt_def general_names_of_def)
  show "subject_alt_domains (example_builder_ip\<lparr>u_subject_alt_name := Some (GeneralNames [])\<rparr>)
       = Inr []"
    by (simp add: subject_alt_domains_def get_subject_alt_def general_names_of_def)
  show "\<exists>r b'. build_with_kms rejecting_lib (stub_kms ''SIGN_VERIFY'' rsa_algos)
                (example_builder_ip\<lparr>u_subject_alt_name := Some (GeneralNames [])\<rparr>) ''key-1''
              = (Inr r, b')
            \<and> extension_names (request_info r) =
                [''basic_constraints'', ''extended_key_usage'', ''key_usage'',
                 ''subject_alt_name'']
            \<and> attributes (request_info r) =
                [Attribute ''extension_request''
                  [[\<lparr>extn_id = ''basic_constraints'', critical = False,
                      extn_value = BasicConstraints False None\<rparr>,
                    \<lparr>extn_id = ''extended_key_usage'', critical = False,
                      extn_value = ExtKeyUsageSyntax [''server_auth'', ''client_auth'']\<rparr>,
                    \<lparr>extn_id = ''key_usage'', critical = True,
                      extn_value = KeyUsage {''digital_signature'', ''key_encipherment''}\<rparr>,
                    \<lparr>extn_id = ''subject_alt_name'', critical = False,
                      extn_value = GeneralNames []\<rparr>]]]"
    by (simp add: build_eval_defs rejecting_lib_def example_builder_ip_def)
qed

text \<open>
  The shape assumed of the subject alternative name is kept by every mutator: by
  \<^verbatim>\<open>_set_subject_alt\<close> whatever it does, by the setter of \<^verbatim>\<open>ca\<close>, and by
  \<^verbatim>\<open>set_extension\<close> when the library expects a \<^verbatim>\<open>GeneralNames\<close> for
  \<^verbatim>\<open>subject_alt_name\<close>.
\<close>

lemma set_subject_alt_keeps_shape:
  assumes run: "set_subject_alt lib b n vals = (r, b')"
      and shape: "u_subject_alt_name b = None
                  \<or> (\<exists>gs. u_subject_alt_name b = Some (GeneralNames gs))"
  shows "u_subject_alt_name b' = None \<or> (\<exists>gs. u_subject_alt_name b' = Some (GeneralNames gs))"
proof -
  let ?vs = "case vals of None \<Rightarrow> [] | Some vs \<Rightarrow> vs"
  let ?F = "filter (\<lambda>g. gn_name g \<noteq> n) (san_list b)"
  have filtered: "(case u_subject_alt_name b of
              None \<Rightarrow> Inr []
            | Some v \<Rightarrow> map_sum id (filter (\<lambda>g. gn_name g \<noteq> n)) (general_names_of v))
          = Inr ?F"
    using shape by (auto simp add: san_list_def general_names_of_def)
  obtain err gs where loop: "append_general_names lib n ?vs ?F = (err, gs)"
    by (cases "append_general_names lib n ?vs ?F")
  from run show ?thesis
    unfolding set_subject_alt_def filtered using loop
    by (cases err) (auto split: if_splits)
qed

lemma set_extension_keeps_shape:
  assumes run: "set_extension lib b name0 v = (r, b')"
      and lib: "\<forall>n x. extn_id_native lib name0 = Inr n \<longrightarrow> n = ''subject_alt_name'' \<longrightarrow>
                  isinstance_spec lib n x \<longrightarrow> (\<exists>gs. x = GeneralNames gs)"
      and shape: "u_subject_alt_name b = None
                  \<or> (\<exists>gs. u_subject_alt_name b = Some (GeneralNames gs))"
  shows "u_subject_alt_name b' = None \<or> (\<exists>gs. u_subject_alt_name b' = Some (GeneralNames gs))"
proof (cases "extn_id_native lib name0")
  case (Inl e)
  with run shape show ?thesis by (simp add: set_extension_def)
next
  case (Inr n)
  show ?thesis
  proof (cases "n = ''subject_alt_name''")
    case True
    with lib Inr have ok: "isinstance_spec lib ''subject_alt_name'' x
                             \<Longrightarrow> \<exists>gs. x = GeneralNames gs" for x
      by simp
    from run Inr True shape show ?thesis
      unfolding set_extension_def
      by (cases v) (auto simp add: setattr_special_def special_extensions_def
                      split: if_splits dest: ok)
  next
    case False
    then have "u_subject_alt_name (setattr_special b n v) = u_subject_alt_name b"
      by (simp add: setattr_special_def)
    with run Inr shape show ?thesis
      unfolding set_extension_def
      by (cases v) (auto split: if_splits)
  qed
qed

lemma ca_setter_keeps_subject_alt_name:
  "u_subject_alt_name (ca_setter b v) = u_subject_alt_name b"
  by (cases v) (simp_all add: ca_setter_def)

end
